theory Spec2Isabelle
  imports Main "HOL-Library.Sublist" "HOL-Library.Multiset"
begin


section \<open>The syntax tree and the scopes supplied by the traversal framework\<close>

text \<open>
  The plugin (\<^verbatim>\<open>packages/babel-plugin-jest-hoist/src/index.ts\<close>) works on a tree
  and on scope objects that the host framework builds. A scope object is modelled as the
  stack of its frames, innermost first: \<^verbatim>\<open>scope.parent\<close> is the tail of the stack.
  A frame records \<^verbatim>\<open>scope.bindings\<close> and \<^verbatim>\<open>scope.globals\<close>.

  A binding records what the plugin reads from it: whether
  \<^verbatim>\<open>binding.path.isVariableDeclarator()\<close> holds, the identity of
  \<^verbatim>\<open>binding.path.node\<close> (the key of the \<^verbatim>\<open>hoistedVariables\<close> weak set),
  \<^verbatim>\<open>node.init\<close> (absent, or present together with the framework's verdict
  \<^verbatim>\<open>scope.isPure(initNode, true)\<close>), and \<^verbatim>\<open>binding.constant\<close>.
\<close>

datatype binding =
  Binding (path_isVariableDeclarator: bool) (bnode: nat) (binit_isPure: "bool option")
    (bconstant: bool)

datatype frame = Frame (bindings: "(string \<times> binding) list") (globals: "string list")

type_synonym scope = "frame list"

text \<open>
  The tree is a fragment of the host grammar. Nodes that open a scope carry the frame of
  that scope. \<open>FunctionExpression\<close> stands for every function with a block body,
  \<open>ArrowFunctionExpression\<close> for an arrow function whose body is an expression. A member
  access keeps the name of its property and the \<^verbatim>\<open>computed\<close> flag. Type positions hold
  a tree of type nodes, each with its node type, whose leaves are identifiers.
\<close>

datatype tnode =
    TNode string "tnode list"
  | TIdentifier string

datatype expr =
    Identifier string
  | StringLiteral string
  | NumericLiteral int
  | FunctionExpression "string list" frame "stmt list"
  | ArrowFunctionExpression "string list" frame expr
  | CallExpression expr "expr list"
  | MemberExpression expr string bool
  | AssignmentExpression string expr
  | TSAsExpression expr tnode
  | TypeCastExpression expr tnode
and stmt =
    ExpressionStatement expr
  | VariableDeclaration string "declarator list"
  | BlockStatement frame "stmt list"
  | IfStatement expr frame "stmt list"
  | FunctionDeclaration string "string list" frame "stmt list"
  | ReturnStatement expr
  | EmptyStatement
and declarator =
    VariableDeclarator nat string "expr option"

text \<open>
  Answers of the host framework that the plugin asks for but does not compute: the
  property names of the global object, \<^verbatim>\<open>referencesImport\<close> of a path,
  \<^verbatim>\<open>program.scope.generateUidIdentifier\<close>, and the identity of the declarator node
  that the getter template creates.
\<close>

record host =
  globalPropertyNames :: "string list"
  referencesImport :: "scope \<Rightarrow> expr \<Rightarrow> string \<Rightarrow> string \<Rightarrow> bool"
  generateUidIdentifier :: "string \<Rightarrow> string"
  templateNode :: nat

text \<open>
  What a run can end in instead of a result. \<open>TypeError\<close> and \<open>ReferenceError\<close> are the
  two errors that the plugin builds with \<^verbatim>\<open>buildCodeFrameError\<close>, the first anchored at
  an expression, the second naming an identifier (given with the scope of its path). The
  others come from the host framework when the plugin hands it a path that it cannot
  use: a scope chain that has run out (\<open>NullScope\<close>); a path that was removed from the
  tree, so that it has no node, where a node is required (\<open>DetachedPath\<close>); the node
  \<^verbatim>\<open>null\<close> of a removed declarator given to the builder \<^verbatim>\<open>variableDeclaration\<close>
  (\<open>NullDeclarator\<close>); a search for the statement around a path that ends at the program
  (\<open>ProgramStatementParent\<close>) or at a path without parent (\<open>NullParentPath\<close>). The last
  one, \<open>AncestorMoved\<close>, is no error of the source: it stands for a run that takes a
  statement around the visited block out of its own block and puts it into the visited
  block, after which the tree is no tree any more and the model stops.
\<close>

datatype error =
    TypeError expr
  | ReferenceError string scope
  | NullScope
  | DetachedPath
  | NullDeclarator
  | ProgramStatementParent
  | NullParentPath
  | AncestorMoved

section \<open>Constants\<close>

definition JEST_GLOBAL_NAME :: string where
  "JEST_GLOBAL_NAME = ''jest''"

definition JEST_GLOBALS_MODULE_NAME :: string where
  "JEST_GLOBALS_MODULE_NAME = ''@jest/globals''"

definition JEST_GLOBALS_MODULE_JEST_EXPORT_NAME :: string where
  "JEST_GLOBALS_MODULE_JEST_EXPORT_NAME = ''jest''"

definition ALLOWED_IDENTIFIERS :: "host \<Rightarrow> string set" where
  "ALLOWED_IDENTIFIERS h = set
     ([''Array'', ''ArrayBuffer'', ''Boolean'', ''BigInt'', ''DataView'', ''Date'', ''Error'',
       ''EvalError'', ''Float32Array'', ''Float64Array'', ''Function'', ''Generator'',
       ''GeneratorFunction'', ''Infinity'', ''Int16Array'', ''Int32Array'', ''Int8Array'',
       ''InternalError'', ''Intl'', ''JSON'', ''Map'', ''Math'', ''NaN'', ''Number'', ''Object'',
       ''Promise'', ''Proxy'', ''RangeError'', ''ReferenceError'', ''Reflect'', ''RegExp'',
       ''Set'', ''String'', ''Symbol'', ''SyntaxError'', ''TypeError'', ''URIError'',
       ''Uint16Array'', ''Uint32Array'', ''Uint8Array'', ''Uint8ClampedArray'', ''WeakMap'',
       ''WeakSet'', ''arguments'', ''console'', ''expect'', ''isNaN'', ''jest'', ''parseFloat'',
       ''parseInt'', ''exports'', ''require'', ''module'', ''__filename'', ''__dirname'',
       ''undefined''] @ globalPropertyNames h)"

text \<open>The two regular expressions \<^verbatim>\<open>/^mock/i\<close> and \<^verbatim>\<open>/^(?:__)?cov/\<close>.\<close>

definition test_mock_i :: "string \<Rightarrow> bool" where
  "test_mock_i name =
     (case name of
        c1 # c2 # c3 # c4 # _ \<Rightarrow>
          (c1 = CHR ''m'' \<or> c1 = CHR ''M'') \<and> (c2 = CHR ''o'' \<or> c2 = CHR ''O'') \<and>
          (c3 = CHR ''c'' \<or> c3 = CHR ''C'') \<and> (c4 = CHR ''k'' \<or> c4 = CHR ''K'')
      | _ \<Rightarrow> False)"

definition test_cov :: "string \<Rightarrow> bool" where
  "test_cov name = (take 3 name = ''cov'' \<or> take 5 name = ''__cov'')"

section \<open>Scope queries\<close>

definition ownBinding :: "scope \<Rightarrow> string \<Rightarrow> binding option" where
  "ownBinding s name = (case s of [] \<Rightarrow> None | fr # _ \<Rightarrow> map_of (bindings fr) name)"

definition hasGlobal :: "scope \<Rightarrow> string \<Rightarrow> bool" where
  "hasGlobal s name = list_ex (\<lambda>fr. name \<in> set (globals fr)) s"

definition hasBinding :: "scope \<Rightarrow> string \<Rightarrow> bool" where
  "hasBinding s name = list_ex (\<lambda>fr. map_of (bindings fr) name \<noteq> None) s"

section \<open>Free identifiers of a mock factory\<close>

text \<open>
  \<^verbatim>\<open>moduleFactory.traverse(IDVisitor, {ids})\<close>: a depth-first walk below the factory
  that adds every referenced identifier, with the scope of its path, to \<^verbatim>\<open>ids\<close>, and
  that does not enter a node whose type is on the visitor's \<^verbatim>\<open>blacklist\<close>. A name that
  is declared (a parameter, the name of a declarator or of a function declaration, the
  target of an assignment) or a property that is not computed is not a reference.
\<close>

definition IDVisitor_blacklist :: "string list" where
  "IDVisitor_blacklist = [''TypeAnnotation'', ''TSTypeAnnotation'', ''TSTypeReference'']"

fun ids_tnode :: "scope \<Rightarrow> tnode \<Rightarrow> (string \<times> scope) list" where
  "ids_tnode s (TIdentifier n) = [(n, s)]"
| "ids_tnode s (TNode ty kids) =
     (if ty \<in> set IDVisitor_blacklist then [] else concat (map (ids_tnode s) kids))"

fun ids_expr :: "scope \<Rightarrow> expr \<Rightarrow> (string \<times> scope) list"
  and ids_stmt :: "scope \<Rightarrow> stmt \<Rightarrow> (string \<times> scope) list"
  and ids_declarator :: "scope \<Rightarrow> declarator \<Rightarrow> (string \<times> scope) list" where
  "ids_expr s (Identifier n) = [(n, s)]"
| "ids_expr s (StringLiteral v) = []"
| "ids_expr s (NumericLiteral v) = []"
| "ids_expr s (FunctionExpression ps fr body) = concat (map (ids_stmt (fr # s)) body)"
| "ids_expr s (ArrowFunctionExpression ps fr e) = ids_expr (fr # s) e"
| "ids_expr s (CallExpression f args) = ids_expr s f @ concat (map (ids_expr s) args)"
| "ids_expr s (MemberExpression obj p computed) =
     ids_expr s obj @ (if computed then [(p, s)] else [])"
| "ids_expr s (AssignmentExpression n e) = ids_expr s e"
| "ids_expr s (TSAsExpression e t) = ids_expr s e @ ids_tnode s t"
| "ids_expr s (TypeCastExpression e t) = ids_expr s e @ ids_tnode s t"
| "ids_stmt s (ExpressionStatement e) = ids_expr s e"
| "ids_stmt s (VariableDeclaration k ds) = concat (map (ids_declarator s) ds)"
| "ids_stmt s (BlockStatement fr body) = concat (map (ids_stmt (fr # s)) body)"
| "ids_stmt s (IfStatement c fr body) = ids_expr s c @ concat (map (ids_stmt (fr # s)) body)"
| "ids_stmt s (FunctionDeclaration n ps fr body) = concat (map (ids_stmt (fr # s)) body)"
| "ids_stmt s (ReturnStatement e) = ids_expr s e"
| "ids_stmt s EmptyStatement = []"
| "ids_declarator s (VariableDeclarator i n ini) =
     (case ini of None \<Rightarrow> [] | Some e \<Rightarrow> ids_expr s e)"

section \<open>The validation rules\<close>

fun isStringLiteral :: "expr \<Rightarrow> bool" where
  "isStringLiteral (StringLiteral v) = True"
| "isStringLiteral _ = False"

fun isLiteral :: "expr \<Rightarrow> bool" where
  "isLiteral (StringLiteral v) = True"
| "isLiteral (NumericLiteral v) = True"
| "isLiteral _ = False"

fun isFunction :: "expr \<Rightarrow> bool" where
  "isFunction (FunctionExpression ps fr body) = True"
| "isFunction (ArrowFunctionExpression ps fr e) = True"
| "isFunction _ = False"

text \<open>
  The loop \<^verbatim>\<open>while (scope !== parentScope)\<close>: it returns \<^verbatim>\<open>found\<close> and the scope
  at which it stopped. Running off the root of the scope chain (\<^verbatim>\<open>scope.parent\<close> is
  \<^verbatim>\<open>null\<close>) makes the next \<^verbatim>\<open>scope.bindings\<close> fail; that is the result \<open>None\<close>.
\<close>

fun scopeWalk :: "string \<Rightarrow> scope \<Rightarrow> scope \<Rightarrow> (bool \<times> scope) option" where
  "scopeWalk name parentScope [] = (if [] = parentScope then Some (False, []) else None)"
| "scopeWalk name parentScope (fr # rest) =
     (if fr # rest = parentScope then Some (False, fr # rest)
      else if map_of (bindings fr) name \<noteq> None then Some (True, fr # rest)
      else scopeWalk name parentScope rest)"

text \<open>The body of the loop \<^verbatim>\<open>for (const id of ids)\<close> of \<^verbatim>\<open>FUNCTIONS.mock\<close>.\<close>

definition checkIdentifier ::
  "host \<Rightarrow> scope \<Rightarrow> string \<times> scope \<Rightarrow> nat set \<Rightarrow> error + nat set" where
  "checkIdentifier h parentScope ident hoistedVariables =
     (let name = fst ident in
      case scopeWalk name parentScope (snd ident) of
        None \<Rightarrow> Inl NullScope
      | Some (found, scope) \<Rightarrow>
          if found then Inr hoistedVariables
          else
            let isAllowedIdentifier =
                  (hasGlobal scope name \<and> name \<in> ALLOWED_IDENTIFIERS h) \<or>
                  test_mock_i name \<or> test_cov name
            in if isAllowedIdentifier then Inr hoistedVariables
               else
                 (case ownBinding scope name of
                    None \<Rightarrow> Inl (ReferenceError name (snd ident))
                  | Some b \<Rightarrow>
                      if path_isVariableDeclarator b \<and> binit_isPure b \<noteq> None \<and>
                         bconstant b \<and> binit_isPure b = Some True
                      then Inr (insert (bnode b) hoistedVariables)
                      else Inl (ReferenceError name (snd ident))))"

fun checkIdentifiers ::
  "host \<Rightarrow> scope \<Rightarrow> (string \<times> scope) list \<Rightarrow> nat set \<Rightarrow> error + nat set" where
  "checkIdentifiers h parentScope [] hoistedVariables = Inr hoistedVariables"
| "checkIdentifiers h parentScope (ident # ids) hoistedVariables =
     (case checkIdentifier h parentScope ident hoistedVariables of
        Inl e \<Rightarrow> Inl e
      | Inr hv \<Rightarrow> checkIdentifiers h parentScope ids hv)"

text \<open>
  A rule takes the argument paths; \<open>parentScope\<close> is the scope of the call, which
  \<^verbatim>\<open>FUNCTIONS.mock\<close> reads as \<^verbatim>\<open>moduleFactory.parentPath.scope\<close>. A rule returns
  its verdict and the new \<^verbatim>\<open>hoistedVariables\<close>, or the error it throws.
\<close>

definition FUNCTIONS_mock ::
  "host \<Rightarrow> scope \<Rightarrow> expr list \<Rightarrow> nat set \<Rightarrow> error + bool \<times> nat set" where
  "FUNCTIONS_mock h parentScope args hoistedVariables =
     (if length args = 1 then
        Inr (isStringLiteral (args ! 0) \<or> isLiteral (args ! 0), hoistedVariables)
      else if length args = 2 \<or> length args = 3 then
        let moduleFactory = args ! 1 in
        if \<not> isFunction moduleFactory then Inl (TypeError moduleFactory)
        else
          (case checkIdentifiers h parentScope (ids_expr parentScope moduleFactory)
                  hoistedVariables of
             Inl e \<Rightarrow> Inl e
           | Inr hv \<Rightarrow> Inr (True, hv))
      else Inr (False, hoistedVariables))"

definition FUNCTIONS_unmock ::
  "host \<Rightarrow> scope \<Rightarrow> expr list \<Rightarrow> nat set \<Rightarrow> error + bool \<times> nat set" where
  "FUNCTIONS_unmock h parentScope args hoistedVariables =
     Inr (length args = 1 \<and> isStringLiteral (args ! 0), hoistedVariables)"

definition FUNCTIONS_deepUnmock ::
  "host \<Rightarrow> scope \<Rightarrow> expr list \<Rightarrow> nat set \<Rightarrow> error + bool \<times> nat set" where
  "FUNCTIONS_deepUnmock h parentScope args hoistedVariables =
     Inr (length args = 1 \<and> isStringLiteral (args ! 0), hoistedVariables)"

definition FUNCTIONS_enableAutomock ::
  "host \<Rightarrow> scope \<Rightarrow> expr list \<Rightarrow> nat set \<Rightarrow> error + bool \<times> nat set" where
  "FUNCTIONS_enableAutomock h parentScope args hoistedVariables =
     Inr (length args = 0, hoistedVariables)"

definition FUNCTIONS ::
  "string \<Rightarrow> (host \<Rightarrow> scope \<Rightarrow> expr list \<Rightarrow> nat set \<Rightarrow> error + bool \<times> nat set) option" where
  "FUNCTIONS propertyName =
     (if propertyName = ''mock'' then Some FUNCTIONS_mock
      else if propertyName = ''unmock'' then Some FUNCTIONS_unmock
      else if propertyName = ''deepUnmock'' then Some FUNCTIONS_deepUnmock
      else if propertyName = ''disableAutomock'' then Some FUNCTIONS_enableAutomock
      else if propertyName = ''enableAutomock'' then Some FUNCTIONS_enableAutomock
      else None)"

section \<open>The call-chain detector\<close>

definition isJestObject :: "host \<Rightarrow> scope \<Rightarrow> expr \<Rightarrow> bool" where
  "isJestObject h s expression =
     (if (case expression of
            Identifier name \<Rightarrow> name = JEST_GLOBAL_NAME \<and> \<not> hasBinding s JEST_GLOBAL_NAME
          | _ \<Rightarrow> False)
      then True
      else if referencesImport h s expression JEST_GLOBALS_MODULE_NAME
                JEST_GLOBALS_MODULE_JEST_EXPORT_NAME
      then True
      else if (case expression of
                 MemberExpression object property computed \<Rightarrow>
                   \<not> computed \<and> referencesImport h s object JEST_GLOBALS_MODULE_NAME ''*'' \<and>
                   property = JEST_GLOBALS_MODULE_JEST_EXPORT_NAME
               | _ \<Rightarrow> False)
      then True
      else False)"

fun extractJestObjExprIfHoistable ::
  "host \<Rightarrow> scope \<Rightarrow> expr \<Rightarrow> nat set \<Rightarrow> error + expr option \<times> nat set" where
  "extractJestObjExprIfHoistable h s (CallExpression (MemberExpression object propertyName computed) args) hv =
     (if computed then Inr (None, hv)
      else
        case (if isJestObject h s object then Inr (Some object, hv)
              else extractJestObjExprIfHoistable h s object hv) of
          Inl e \<Rightarrow> Inl e
        | Inr (None, hv1) \<Rightarrow> Inr (None, hv1)
        | Inr (Some jestObjExpr, hv1) \<Rightarrow>
            (case FUNCTIONS propertyName of
               None \<Rightarrow> Inr (None, hv1)
             | Some rule \<Rightarrow>
                 (case rule h s args hv1 of
                    Inl e \<Rightarrow> Inl e
                  | Inr (functionLooksHoistable, hv2) \<Rightarrow>
                      Inr (if functionLooksHoistable then Some jestObjExpr else None, hv2))))"
| "extractJestObjExprIfHoistable h s expr hv = Inr (None, hv)"

section \<open>Paths\<close>

text \<open>
  The hoisting pass asks the host framework for the statement around a call
  (\<^verbatim>\<open>getStatementParent\<close>) and for the kind of the path above it (\<^verbatim>\<open>isBlock\<close>).
  Both answers depend on the chain of paths from the call up to the program only. A path
  is the list of its links, its own first: a link holds the type of the node of the path,
  or nothing when the path was removed (\<^verbatim>\<open>remove\<close> sets \<^verbatim>\<open>path.node\<close> to
  \<^verbatim>\<open>null\<close>), and whether the container of the path is a list. The tail of the list is
  \<^verbatim>\<open>path.parentPath\<close>; the path of the program has no parent.
\<close>

datatype link = Link (node_type: "string option") (inList: bool)

type_synonym path = "link list"

fun type_expr :: "expr \<Rightarrow> string" where
  "type_expr (Identifier n) = ''Identifier''"
| "type_expr (StringLiteral v) = ''StringLiteral''"
| "type_expr (NumericLiteral v) = ''NumericLiteral''"
| "type_expr (FunctionExpression ps fr body) = ''FunctionExpression''"
| "type_expr (ArrowFunctionExpression ps fr e) = ''ArrowFunctionExpression''"
| "type_expr (CallExpression f args) = ''CallExpression''"
| "type_expr (MemberExpression obj p computed) = ''MemberExpression''"
| "type_expr (AssignmentExpression n e) = ''AssignmentExpression''"
| "type_expr (TSAsExpression e t) = ''TSAsExpression''"
| "type_expr (TypeCastExpression e t) = ''TypeCastExpression''"

fun type_stmt :: "stmt \<Rightarrow> string" where
  "type_stmt (ExpressionStatement e) = ''ExpressionStatement''"
| "type_stmt (VariableDeclaration kind ds) = ''VariableDeclaration''"
| "type_stmt (BlockStatement fr body) = ''BlockStatement''"
| "type_stmt (IfStatement test fr body) = ''IfStatement''"
| "type_stmt (FunctionDeclaration n ps fr body) = ''FunctionDeclaration''"
| "type_stmt (ReturnStatement e) = ''ReturnStatement''"
| "type_stmt EmptyStatement = ''EmptyStatement''"

definition STATEMENT_TYPES :: "string list" where
  "STATEMENT_TYPES =
     [''ExpressionStatement'', ''VariableDeclaration'', ''BlockStatement'', ''IfStatement'',
      ''FunctionDeclaration'', ''ReturnStatement'', ''EmptyStatement'']"

definition BLOCK_TYPES :: "string list" where
  "BLOCK_TYPES = [''BlockStatement'', ''Program'', ''TSModuleBlock'']"

definition isStatement :: "link \<Rightarrow> bool" where
  "isStatement l = (case node_type l of None \<Rightarrow> False | Some t \<Rightarrow> t \<in> set STATEMENT_TYPES)"

definition isBlock :: "link \<Rightarrow> bool" where
  "isBlock l = (case node_type l of None \<Rightarrow> False | Some t \<Rightarrow> t \<in> set BLOCK_TYPES)"

definition isProgram :: "link \<Rightarrow> bool" where
  "isProgram l = (node_type l = Some ''Program'')"

definition isFile :: "link \<Rightarrow> bool" where
  "isFile l = (node_type l = Some ''File'')"

text \<open>
  \<^verbatim>\<open>path.getStatementParent()\<close>: go up from the path itself until a path without
  parent, or a path in a list whose node is a statement; the program or the file is
  no answer. A path that was removed has no node, so it is no statement, and the
  search goes past it.
\<close>

fun getStatementParent :: "path \<Rightarrow> error + path" where
  "getStatementParent [] = Inr []"
| "getStatementParent (l # parentPath) =
     (if parentPath = [] \<or> (inList l \<and> isStatement l)
      then (if isProgram l \<or> isFile l then Inl ProgramStatementParent
            else Inr (l # parentPath))
      else getStatementParent parentPath)"

text \<open>The path of a child, given the child's node type and the path of its parent.\<close>

definition exprPath :: "expr \<Rightarrow> bool \<Rightarrow> path \<Rightarrow> path" where
  "exprPath e inl parent = Link (Some (type_expr e)) inl # parent"

definition blockPath :: "bool \<Rightarrow> path \<Rightarrow> path" where
  "blockPath inl parent = Link (Some ''BlockStatement'') inl # parent"

definition declaratorPath :: "path \<Rightarrow> path" where
  "declaratorPath parent = Link (Some ''VariableDeclarator'') True # parent"

definition programPath :: path where
  "programPath = [Link (Some ''Program'') False]"

section \<open>The hoisting pass\<close>

text \<open>
  \<^verbatim>\<open>visitBlock\<close> works on the \<^verbatim>\<open>body\<close> container of a block. A slot of the
  container is one of the two placeholders that \<^verbatim>\<open>unshiftContainer\<close> puts in front,
  the path of a statement that was in the block when the walk started (with the number of
  that statement and its node), or a node that \<^verbatim>\<open>insertBefore\<close> put in.
\<close>

datatype slot =
    VarsHoistPoint
  | CallsHoistPoint
  | Path nat stmt
  | Inserted stmt

fun isPath :: "nat \<Rightarrow> slot \<Rightarrow> bool" where
  "isPath i (Path j s) = (j = i)"
| "isPath i sl = False"

fun nodeAt :: "nat \<Rightarrow> slot list \<Rightarrow> stmt option" where
  "nodeAt i [] = None"
| "nodeAt i (Path j s # c) = (if j = i then Some s else nodeAt i c)"
| "nodeAt i (sl # c) = nodeAt i c"

definition removePath :: "nat \<Rightarrow> slot list \<Rightarrow> slot list" where
  "removePath i c = filter (\<lambda>sl. \<not> isPath i sl) c"

fun insertBefore :: "slot \<Rightarrow> stmt \<Rightarrow> slot list \<Rightarrow> slot list" where
  "insertBefore point node [] = []"
| "insertBefore point node (sl # c) =
     (if sl = point then Inserted node # sl # c else sl # insertBefore point node c)"

text \<open>
  The path of statement number \<open>i\<close> of the block with path \<open>block\<close>, as the container
  stands: it has a node as long as the statement has not been removed.
\<close>

definition statementPath :: "path \<Rightarrow> nat \<Rightarrow> slot list \<Rightarrow> path" where
  "statementPath block i c = Link (map_option type_stmt (nodeAt i c)) True # block"

text \<open>
  The call expressions that the walk of \<^verbatim>\<open>visitBlock\<close> meets inside an expression, in
  the order of the walk. Each is given by its callee and by the part of its path that
  lies below the statement, of which \<open>p\<close> is the part of the expression walked. The walk
  does not enter a block statement, so it stays out of the body of a
  \<open>FunctionExpression\<close>.
\<close>

fun calls_expr :: "path \<Rightarrow> expr \<Rightarrow> (expr \<times> path) list" where
  "calls_expr p (Identifier n) = []"
| "calls_expr p (StringLiteral v) = []"
| "calls_expr p (NumericLiteral v) = []"
| "calls_expr p (FunctionExpression ps fr body) = []"
| "calls_expr p (ArrowFunctionExpression ps fr e) = calls_expr (exprPath e False p) e"
| "calls_expr p (CallExpression f args) =
     (f, p) # calls_expr (exprPath f False p) f @
     concat (map (\<lambda>a. calls_expr (exprPath a True p) a) args)"
| "calls_expr p (MemberExpression obj pr computed) = calls_expr (exprPath obj False p) obj"
| "calls_expr p (AssignmentExpression n e) = calls_expr (exprPath e False p) e"
| "calls_expr p (TSAsExpression e t) = calls_expr (exprPath e False p) e"
| "calls_expr p (TypeCastExpression e t) = calls_expr (exprPath e False p) e"

fun declaratorId :: "declarator \<Rightarrow> nat" where
  "declaratorId (VariableDeclarator i n ini) = i"

fun calls_declarator :: "declarator \<Rightarrow> (expr \<times> path) list" where
  "calls_declarator (VariableDeclarator i n ini) =
     (case ini of None \<Rightarrow> [] | Some e \<Rightarrow> calls_expr (exprPath e False (declaratorPath [])) e)"

text \<open>
  \<^verbatim>\<open>visitCallExpr\<close>, for a call expression inside statement number \<open>i\<close> of the block
  with path \<open>block\<close>; \<open>callExpr\<close> is the path of the call and \<open>callee\<close> its callee. The
  statement parent is the path of statement \<open>i\<close> exactly when it is one link longer than
  the path of the block; then \<^verbatim>\<open>mockStmt.remove()\<close> takes it out of the container.
  When the search for the statement parent has gone past the block, the statement it
  finds is outside of the container: the outcome is \<open>AncestorMoved\<close>.
\<close>

definition visitCallExpr ::
  "string option \<Rightarrow> path \<Rightarrow> nat \<Rightarrow> path \<Rightarrow> expr \<Rightarrow> slot list \<Rightarrow> error + slot list" where
  "visitCallExpr jestObjGetterIdentifier block i callExpr callee c =
     (if (case callee of
            Identifier name \<Rightarrow> jestObjGetterIdentifier = Some name
          | _ \<Rightarrow> False)
      then
        (case getStatementParent callExpr of
           Inl e \<Rightarrow> Inl e
         | Inr mockStmt \<Rightarrow>
             (case mockStmt of
                [] \<Rightarrow> Inr c
              | [l] \<Rightarrow> Inl NullParentPath
              | l # mockStmtParent # up \<Rightarrow>
                  if isBlock mockStmtParent then
                    (if length mockStmt = Suc (length block) then
                       (case nodeAt i c of
                          None \<Rightarrow> Inl DetachedPath
                        | Some mockStmtNode \<Rightarrow>
                            Inr (insertBefore CallsHoistPoint mockStmtNode (removePath i c)))
                     else Inl AncestorMoved)
                  else Inr c))
      else Inr c)"

fun visitCallExprs ::
  "string option \<Rightarrow> path \<Rightarrow> nat \<Rightarrow> (expr \<times> path) list \<Rightarrow> slot list \<Rightarrow> error + slot list" where
  "visitCallExprs g block i [] c = Inr c"
| "visitCallExprs g block i ((callee, below) # calls) c =
     (case visitCallExpr g block i (below @ statementPath block i c) callee c of
        Inl e \<Rightarrow> Inl e
      | Inr c1 \<Rightarrow> visitCallExprs g block i calls c1)"

text \<open>
  \<^verbatim>\<open>visitVariableDeclarator\<close>, for a declarator of statement number \<open>i\<close>.
  \<^verbatim>\<open>assertVariableDeclaration\<close> fails on a parent path that was removed. When the
  declaration holds one declarator the declaration is removed, and the node of the
  declarator is still there for the new declaration. Otherwise \<^verbatim>\<open>varDecl.remove()\<close>
  leaves \<^verbatim>\<open>varDecl.node\<close> \<^verbatim>\<open>null\<close>, and the builder \<^verbatim>\<open>variableDeclaration\<close> throws
  on it.
\<close>

definition visitVariableDeclarator ::
  "nat set \<Rightarrow> nat \<Rightarrow> declarator \<Rightarrow> slot list \<Rightarrow> error + slot list" where
  "visitVariableDeclarator hoistedVariables i varDecl c =
     (if declaratorId varDecl \<in> hoistedVariables then
        (case nodeAt i c of
           Some (VariableDeclaration kind declarations) \<Rightarrow>
             if length declarations = 1
             then Inr (insertBefore VarsHoistPoint (VariableDeclaration kind [varDecl])
                         (removePath i c))
             else Inl NullDeclarator
         | _ \<Rightarrow> Inl DetachedPath)
      else Inr c)"

text \<open>
  The walk of the declarators of a declaration: the visitor runs on a declarator, then
  the walk goes on below it, whether or not the declaration around it was removed.
\<close>

fun visitDeclarators ::
  "string option \<Rightarrow> nat set \<Rightarrow> path \<Rightarrow> nat \<Rightarrow> declarator list \<Rightarrow> slot list \<Rightarrow>
   error + slot list" where
  "visitDeclarators g hv block i [] c = Inr c"
| "visitDeclarators g hv block i (d # ds) c =
     (case visitVariableDeclarator hv i d c of
        Inl e \<Rightarrow> Inl e
      | Inr c1 \<Rightarrow>
          (case visitCallExprs g block i (calls_declarator d) c1 of
             Inl e \<Rightarrow> Inl e
           | Inr c2 \<Rightarrow> visitDeclarators g hv block i ds c2))"

text \<open>
  The calls that the walk meets in one statement of the block:
  \<^verbatim>\<open>blacklist: ['BlockStatement']\<close> keeps the walk out of a block statement, of the body
  of an \<open>if\<close> and of the body of a function.
\<close>

fun calls_stmt :: "stmt \<Rightarrow> (expr \<times> path) list" where
  "calls_stmt (ExpressionStatement e) = calls_expr (exprPath e False []) e"
| "calls_stmt (VariableDeclaration kind ds) = concat (map calls_declarator ds)"
| "calls_stmt (BlockStatement fr body) = []"
| "calls_stmt (IfStatement test fr body) = calls_expr (exprPath test False []) test"
| "calls_stmt (FunctionDeclaration n ps fr body) = []"
| "calls_stmt (ReturnStatement e) = calls_expr (exprPath e False []) e"
| "calls_stmt EmptyStatement = []"

fun traverseStatement ::
  "string option \<Rightarrow> nat set \<Rightarrow> path \<Rightarrow> nat \<Rightarrow> stmt \<Rightarrow> slot list \<Rightarrow> error + slot list" where
  "traverseStatement g hv block i (VariableDeclaration kind ds) c =
     visitDeclarators g hv block i ds c"
| "traverseStatement g hv block i s c = visitCallExprs g block i (calls_stmt s) c"

fun traverseStatements ::
  "string option \<Rightarrow> nat set \<Rightarrow> path \<Rightarrow> (nat \<times> stmt) list \<Rightarrow> slot list \<Rightarrow>
   error + slot list" where
  "traverseStatements g hv block [] c = Inr c"
| "traverseStatements g hv block ((i, s) # queue) c =
     (case traverseStatement g hv block i s c of
        Inl e \<Rightarrow> Inl e
      | Inr c1 \<Rightarrow> traverseStatements g hv block queue c1)"

fun slotNodes :: "slot list \<Rightarrow> stmt list" where
  "slotNodes [] = []"
| "slotNodes (VarsHoistPoint # c) = EmptyStatement # slotNodes c"
| "slotNodes (CallsHoistPoint # c) = EmptyStatement # slotNodes c"
| "slotNodes (Path i s # c) = s # slotNodes c"
| "slotNodes (Inserted s # c) = s # slotNodes c"

text \<open>
  \<^verbatim>\<open>visitBlock\<close>, for the block with path \<open>block\<close>: unshift the two placeholders, walk
  the statements that the block holds, remove the placeholders. The result is the new
  body of the block.
\<close>

definition visitBlock ::
  "string option \<Rightarrow> nat set \<Rightarrow> path \<Rightarrow> stmt list \<Rightarrow> error + stmt list" where
  "visitBlock jestObjGetterIdentifier hoistedVariables block body =
     (let queue = zip [0 ..< length body] body;
          c = [VarsHoistPoint, CallsHoistPoint] @ map (\<lambda>(i, s). Path i s) queue
      in case traverseStatements jestObjGetterIdentifier hoistedVariables block queue c of
           Inl e \<Rightarrow> Inl e
         | Inr c1 \<Rightarrow>
             Inr (slotNodes (filter (\<lambda>sl. sl \<noteq> VarsHoistPoint)
                    (filter (\<lambda>sl. sl \<noteq> CallsHoistPoint) c1))))"

section \<open>Notions used to state the properties\<close>

text \<open>The receivers along a chain of member calls, outermost first.\<close>

fun receivers :: "expr \<Rightarrow> expr list" where
  "receivers (CallExpression (MemberExpression object p c) args) = object # receivers object"
| "receivers e = []"

text \<open>
  The free-variable rule in the words of the specification. An identifier is locally
  resolved when a scope between its own and (exclusive of) the scope of the call binds
  its name; it is allowed by name when it is an allow-listed global or matches one of the
  two naming conventions. A name resolves to the binding of the innermost scope that binds
  it, from the scope of the call outwards; it denotes a pure constant when it resolves to
  the binding of a variable declarator with an initializer that is pure and that is never
  reassigned.
\<close>

definition spec_locallyBound :: "scope \<Rightarrow> string \<times> scope \<Rightarrow> bool" where
  "spec_locallyBound parentScope ident =
     list_ex (\<lambda>fr. map_of (bindings fr) (fst ident) \<noteq> None)
       (take (length (snd ident) - length parentScope) (snd ident))"

definition spec_allowedByName :: "host \<Rightarrow> scope \<Rightarrow> string \<Rightarrow> bool" where
  "spec_allowedByName h parentScope name =
     ((hasGlobal parentScope name \<and> name \<in> ALLOWED_IDENTIFIERS h) \<or>
      test_mock_i name \<or> test_cov name)"

fun spec_resolve :: "scope \<Rightarrow> string \<Rightarrow> binding option" where
  "spec_resolve [] name = None"
| "spec_resolve (fr # parent) name =
     (case map_of (bindings fr) name of
        None \<Rightarrow> spec_resolve parent name
      | Some b \<Rightarrow> Some b)"

definition isPureConstant :: "binding \<Rightarrow> bool" where
  "isPureConstant b = (path_isVariableDeclarator b \<and> binit_isPure b = Some True \<and> bconstant b)"

definition spec_pureConstant :: "scope \<Rightarrow> string \<Rightarrow> bool" where
  "spec_pureConstant parentScope name =
     (case spec_resolve parentScope name of
        None \<Rightarrow> False
      | Some b \<Rightarrow> isPureConstant b)"

definition spec_mustHoist :: "host \<Rightarrow> scope \<Rightarrow> string \<times> scope \<Rightarrow> bool" where
  "spec_mustHoist h parentScope ident =
     (\<not> spec_locallyBound parentScope ident \<and> \<not> spec_allowedByName h parentScope (fst ident) \<and>
      spec_pureConstant parentScope (fst ident))"

definition spec_accepted :: "host \<Rightarrow> scope \<Rightarrow> string \<times> scope \<Rightarrow> bool" where
  "spec_accepted h parentScope ident =
     (spec_locallyBound parentScope ident \<or> spec_allowedByName h parentScope (fst ident) \<or>
      spec_pureConstant parentScope (fst ident))"

definition spec_marked :: "host \<Rightarrow> scope \<Rightarrow> (string \<times> scope) list \<Rightarrow> nat set" where
  "spec_marked h parentScope ids =
     set (map (\<lambda>ident. bnode (the (spec_resolve parentScope (fst ident))))
            (filter (spec_mustHoist h parentScope) ids))"

text \<open>
  The outcome of the rule for a factory, in these words: the reference error for the
  first identifier that is not accepted, and otherwise acceptance with the declarators of
  the pure constants added to \<^verbatim>\<open>hoistedVariables\<close>.
\<close>

definition spec_mock ::
  "host \<Rightarrow> scope \<Rightarrow> expr \<Rightarrow> nat set \<Rightarrow> error + bool \<times> nat set" where
  "spec_mock h parentScope moduleFactory hv =
     (case find (\<lambda>ident. \<not> spec_accepted h parentScope ident)
             (ids_expr parentScope moduleFactory) of
        None \<Rightarrow> Inr (True, hv \<union> spec_marked h parentScope (ids_expr parentScope moduleFactory))
      | Some ident \<Rightarrow> Inl (ReferenceError (fst ident) (snd ident)))"

text \<open>
  The same rule with one difference: a name denotes a pure constant only when the scope
  of the call itself binds it, in its own \<^verbatim>\<open>bindings\<close>, to such a declarator. The
  scopes around the scope of the call are not searched.
\<close>

definition own_pureConstant :: "scope \<Rightarrow> string \<Rightarrow> bool" where
  "own_pureConstant parentScope name =
     (case ownBinding parentScope name of
        None \<Rightarrow> False
      | Some b \<Rightarrow> isPureConstant b)"

definition own_mustHoist :: "host \<Rightarrow> scope \<Rightarrow> string \<times> scope \<Rightarrow> bool" where
  "own_mustHoist h parentScope ident =
     (\<not> spec_locallyBound parentScope ident \<and> \<not> spec_allowedByName h parentScope (fst ident) \<and>
      own_pureConstant parentScope (fst ident))"

definition own_accepted :: "host \<Rightarrow> scope \<Rightarrow> string \<times> scope \<Rightarrow> bool" where
  "own_accepted h parentScope ident =
     (spec_locallyBound parentScope ident \<or> spec_allowedByName h parentScope (fst ident) \<or>
      own_pureConstant parentScope (fst ident))"

definition own_marked :: "host \<Rightarrow> scope \<Rightarrow> (string \<times> scope) list \<Rightarrow> nat set" where
  "own_marked h parentScope ids =
     set (map (\<lambda>ident. bnode (the (ownBinding parentScope (fst ident))))
            (filter (own_mustHoist h parentScope) ids))"

text \<open>Emptying every node of a type on the identifier visitor's blacklist.\<close>

fun eraseTypes_tnode :: "tnode \<Rightarrow> tnode" where
  "eraseTypes_tnode (TIdentifier n) = TIdentifier n"
| "eraseTypes_tnode (TNode ty kids) =
     (if ty \<in> set IDVisitor_blacklist then TNode ty []
      else TNode ty (map eraseTypes_tnode kids))"

fun eraseTypes_expr :: "expr \<Rightarrow> expr"
  and eraseTypes_stmt :: "stmt \<Rightarrow> stmt"
  and eraseTypes_declarator :: "declarator \<Rightarrow> declarator" where
  "eraseTypes_expr (Identifier n) = Identifier n"
| "eraseTypes_expr (StringLiteral v) = StringLiteral v"
| "eraseTypes_expr (NumericLiteral v) = NumericLiteral v"
| "eraseTypes_expr (FunctionExpression ps fr body) =
     FunctionExpression ps fr (map eraseTypes_stmt body)"
| "eraseTypes_expr (ArrowFunctionExpression ps fr e) =
     ArrowFunctionExpression ps fr (eraseTypes_expr e)"
| "eraseTypes_expr (CallExpression f args) =
     CallExpression (eraseTypes_expr f) (map eraseTypes_expr args)"
| "eraseTypes_expr (MemberExpression obj p computed) =
     MemberExpression (eraseTypes_expr obj) p computed"
| "eraseTypes_expr (AssignmentExpression n e) = AssignmentExpression n (eraseTypes_expr e)"
| "eraseTypes_expr (TSAsExpression e t) = TSAsExpression (eraseTypes_expr e) (eraseTypes_tnode t)"
| "eraseTypes_expr (TypeCastExpression e t) =
     TypeCastExpression (eraseTypes_expr e) (eraseTypes_tnode t)"
| "eraseTypes_stmt (ExpressionStatement e) = ExpressionStatement (eraseTypes_expr e)"
| "eraseTypes_stmt (VariableDeclaration k ds) =
     VariableDeclaration k (map eraseTypes_declarator ds)"
| "eraseTypes_stmt (BlockStatement fr body) = BlockStatement fr (map eraseTypes_stmt body)"
| "eraseTypes_stmt (IfStatement c fr body) =
     IfStatement (eraseTypes_expr c) fr (map eraseTypes_stmt body)"
| "eraseTypes_stmt (FunctionDeclaration n ps fr body) =
     FunctionDeclaration n ps fr (map eraseTypes_stmt body)"
| "eraseTypes_stmt (ReturnStatement e) = ReturnStatement (eraseTypes_expr e)"
| "eraseTypes_stmt EmptyStatement = EmptyStatement"
| "eraseTypes_declarator (VariableDeclarator i n ini) =
     VariableDeclarator i n (map_option eraseTypes_expr ini)"

section \<open>Example inputs\<close>

text \<open>
  A host without imports, and a program scope that binds \<open>x\<close> (\<^verbatim>\<open>const x = 1\<close>),
  \<open>z\<close> (\<^verbatim>\<open>let z = 1; z = 2\<close>), \<open>foo\<close> (initialised by a call) and \<open>mockFoo\<close>
  (\<^verbatim>\<open>const mockFoo = 1\<close>), with the globals \<open>jest\<close> and \<open>require\<close>.
\<close>

definition hostNone :: host where
  "hostNone =
     \<lparr>globalPropertyNames = [], referencesImport = (\<lambda>s e m n. False),
      generateUidIdentifier = (\<lambda>name. CHR ''_'' # name), templateNode = 1000\<rparr>"

definition programFrame :: frame where
  "programFrame =
     Frame [(''x'', Binding True 7 (Some True) True),
            (''z'', Binding True 8 (Some True) False),
            (''foo'', Binding True 9 (Some False) True),
            (''mockFoo'', Binding True 10 (Some True) True)]
           [''jest'', ''require'']"

text \<open>
  The scope of a function \<open>f\<close> declared in that program, which binds nothing of its own:
  \<^verbatim>\<open>const x = 1; function f() { jest.mock('m', () => x) }\<close>.
\<close>

definition functionFrame :: frame where
  "functionFrame = Frame [] []"

definition jestCall :: "string \<Rightarrow> expr list \<Rightarrow> expr" where
  "jestCall method args = CallExpression (MemberExpression (Identifier ''jest'') method False) args"

definition arrow :: "expr \<Rightarrow> expr" where
  "arrow e = ArrowFunctionExpression [] (Frame [] []) e"

section \<open>The effect of the hoisting pass, statement by statement\<close>

text \<open>
  What becomes of one statement of a block, in the words of the specification. A
  declaration whose one declarator is marked is a hoisted variable declaration. Any
  other statement that holds a call of the getter outside of nested blocks is a hoisted
  getter call. The remaining statements stay.
\<close>

definition isGetterCallee :: "string option \<Rightarrow> expr \<Rightarrow> bool" where
  "isGetterCallee g callee =
     (case callee of Identifier name \<Rightarrow> g = Some name | _ \<Rightarrow> False)"

definition hasGetterCall :: "string option \<Rightarrow> stmt \<Rightarrow> bool" where
  "hasGetterCall g s = list_ex (isGetterCallee g) (map fst (calls_stmt s))"

fun isHoistedVar :: "nat set \<Rightarrow> stmt \<Rightarrow> bool" where
  "isHoistedVar hv (VariableDeclaration kind [d]) = (declaratorId d \<in> hv)"
| "isHoistedVar hv s = False"

definition isHoistedCall :: "string option \<Rightarrow> nat set \<Rightarrow> stmt \<Rightarrow> bool" where
  "isHoistedCall g hv s = (\<not> isHoistedVar hv s \<and> hasGetterCall g s)"

definition isKept :: "string option \<Rightarrow> nat set \<Rightarrow> stmt \<Rightarrow> bool" where
  "isKept g hv s = (\<not> isHoistedVar hv s \<and> \<not> hasGetterCall g s)"

definition spec_visitBlock :: "string option \<Rightarrow> nat set \<Rightarrow> stmt list \<Rightarrow> stmt list" where
  "spec_visitBlock g hv body =
     filter (isHoistedVar hv) body @ filter (isHoistedCall g hv) body @
     filter (isKept g hv) body"

text \<open>The container in the shape it has throughout the walk.\<close>

definition container :: "stmt list \<Rightarrow> stmt list \<Rightarrow> slot list \<Rightarrow> slot list" where
  "container vs cs paths =
     map Inserted vs @ VarsHoistPoint # map Inserted cs @ CallsHoistPoint # paths"

definition pathSlots :: "(nat \<times> stmt) list \<Rightarrow> slot list" where
  "pathSlots queue = map (\<lambda>(i, s). Path i s) queue"

text \<open>
  The path of a block: it has a parent and its node is a block. Below such a path the
  statement parent of a call in a statement that is still in place is that statement.
\<close>

definition isBlockPath :: "path \<Rightarrow> bool" where
  "isBlockPath block = (case block of [] \<Rightarrow> False | l # up \<Rightarrow> isBlock l)"

text \<open>Example statements: a call through the getter \<open>_getJestObj\<close>, and other calls.\<close>

definition getterCall :: "string \<Rightarrow> expr list \<Rightarrow> stmt" where
  "getterCall method args =
     ExpressionStatement
       (CallExpression
          (MemberExpression (CallExpression (Identifier ''_getJestObj'') []) method False)
          args)"

definition otherCall :: "string \<Rightarrow> stmt" where
  "otherCall f = ExpressionStatement (CallExpression (Identifier f) [])"

text \<open>
  Rewriting the bodies of the blocks nested in a statement or an expression, at the first
  level of nesting, by a function on statement lists.
\<close>

fun mapBlocks_expr :: "(stmt list \<Rightarrow> stmt list) \<Rightarrow> expr \<Rightarrow> expr" where
  "mapBlocks_expr f (Identifier n) = Identifier n"
| "mapBlocks_expr f (StringLiteral v) = StringLiteral v"
| "mapBlocks_expr f (NumericLiteral v) = NumericLiteral v"
| "mapBlocks_expr f (FunctionExpression ps fr body) = FunctionExpression ps fr (f body)"
| "mapBlocks_expr f (ArrowFunctionExpression ps fr e) =
     ArrowFunctionExpression ps fr (mapBlocks_expr f e)"
| "mapBlocks_expr f (CallExpression c args) =
     CallExpression (mapBlocks_expr f c) (map (mapBlocks_expr f) args)"
| "mapBlocks_expr f (MemberExpression obj p computed) =
     MemberExpression (mapBlocks_expr f obj) p computed"
| "mapBlocks_expr f (AssignmentExpression n e) = AssignmentExpression n (mapBlocks_expr f e)"
| "mapBlocks_expr f (TSAsExpression e t) = TSAsExpression (mapBlocks_expr f e) t"
| "mapBlocks_expr f (TypeCastExpression e t) = TypeCastExpression (mapBlocks_expr f e) t"

fun mapBlocks_declarator :: "(stmt list \<Rightarrow> stmt list) \<Rightarrow> declarator \<Rightarrow> declarator" where
  "mapBlocks_declarator f (VariableDeclarator i n ini) =
     VariableDeclarator i n (map_option (mapBlocks_expr f) ini)"

fun mapBlocks_stmt :: "(stmt list \<Rightarrow> stmt list) \<Rightarrow> stmt \<Rightarrow> stmt" where
  "mapBlocks_stmt f (ExpressionStatement e) = ExpressionStatement (mapBlocks_expr f e)"
| "mapBlocks_stmt f (VariableDeclaration k ds) =
     VariableDeclaration k (map (mapBlocks_declarator f) ds)"
| "mapBlocks_stmt f (BlockStatement fr body) = BlockStatement fr (f body)"
| "mapBlocks_stmt f (IfStatement c fr body) = IfStatement (mapBlocks_expr f c) fr (f body)"
| "mapBlocks_stmt f (FunctionDeclaration n ps fr body) = FunctionDeclaration n ps fr (f body)"
| "mapBlocks_stmt f (ReturnStatement e) = ReturnStatement (mapBlocks_expr f e)"
| "mapBlocks_stmt f EmptyStatement = EmptyStatement"

text \<open>The same rewriting in the nodes that a container holds.\<close>

fun mapSlot :: "(stmt \<Rightarrow> stmt) \<Rightarrow> slot \<Rightarrow> slot" where
  "mapSlot f VarsHoistPoint = VarsHoistPoint"
| "mapSlot f CallsHoistPoint = CallsHoistPoint"
| "mapSlot f (Path i s) = Path i (f s)"
| "mapSlot f (Inserted s) = Inserted (f s)"

text \<open>A measure of the tree that neither the rewrite of a call nor \<^verbatim>\<open>visitBlock\<close> make larger.\<close>

fun weight_expr :: "expr \<Rightarrow> nat"
  and weight_stmt :: "stmt \<Rightarrow> nat"
  and weight_declarator :: "declarator \<Rightarrow> nat" where
  "weight_expr (Identifier n) = 0"
| "weight_expr (StringLiteral v) = 0"
| "weight_expr (NumericLiteral v) = 0"
| "weight_expr (FunctionExpression ps fr body) = Suc (sum_list (map weight_stmt body))"
| "weight_expr (ArrowFunctionExpression ps fr e) = weight_expr e"
| "weight_expr (CallExpression c args) = weight_expr c + sum_list (map weight_expr args)"
| "weight_expr (MemberExpression obj p computed) = weight_expr obj"
| "weight_expr (AssignmentExpression n e) = weight_expr e"
| "weight_expr (TSAsExpression e t) = weight_expr e"
| "weight_expr (TypeCastExpression e t) = weight_expr e"
| "weight_stmt (ExpressionStatement e) = Suc (weight_expr e)"
| "weight_stmt (VariableDeclaration k ds) = sum_list (map weight_declarator ds)"
| "weight_stmt (BlockStatement fr body) = Suc (sum_list (map weight_stmt body))"
| "weight_stmt (IfStatement c fr body) = Suc (weight_expr c + sum_list (map weight_stmt body))"
| "weight_stmt (FunctionDeclaration n ps fr body) = Suc (sum_list (map weight_stmt body))"
| "weight_stmt (ReturnStatement e) = Suc (weight_expr e)"
| "weight_stmt EmptyStatement = Suc 0"
| "weight_declarator (VariableDeclarator i n ini) =
     Suc (case ini of None \<Rightarrow> 0 | Some e \<Rightarrow> weight_expr e)"

fun replaceJestObjExpr :: "host \<Rightarrow> scope \<Rightarrow> expr \<Rightarrow> expr \<Rightarrow> expr" where
  "replaceJestObjExpr h s new (CallExpression (MemberExpression object p computed) args) =
     CallExpression
       (MemberExpression
          (if isJestObject h s object then new else replaceJestObjExpr h s new object)
          p computed)
       args"
| "replaceJestObjExpr h s new e = e"

section \<open>The hoisting pass in closed form\<close>

lemma insertBefore_vars: "insertBefore VarsHoistPoint n (container vs cs ps) = container (vs @ [n]) cs ps"
  by (induction vs) (auto simp: container_def)

lemma insertBefore_calls_aux:
  "insertBefore CallsHoistPoint n (map Inserted cs @ CallsHoistPoint # ps) = map Inserted (cs @ [n]) @ CallsHoistPoint # ps"
  by (induction cs) auto

lemma insertBefore_calls: "insertBefore CallsHoistPoint n (container vs cs ps) = container vs (cs @ [n]) ps"
proof -
  have "insertBefore CallsHoistPoint n (map Inserted vs @ VarsHoistPoint # rest)
        = map Inserted vs @ VarsHoistPoint # insertBefore CallsHoistPoint n rest" for rest
    by (induction vs) auto
  then show ?thesis by (simp add: container_def insertBefore_calls_aux)
qed

lemma nodeAt_Inserted: "nodeAt i (map Inserted xs @ c) = nodeAt i c"
  by (induction xs) auto

lemma nodeAt_container: "nodeAt i (container vs cs ps) = nodeAt i ps"
  by (simp add: container_def nodeAt_Inserted)

lemma removePath_container: "removePath i (container vs cs ps) = container vs cs (removePath i ps)"
  by (simp add: container_def removePath_def filter_map comp_def)

lemma nodeAt_removePath: "nodeAt i (removePath i ps) = None"
proof (induction ps)
  case (Cons a ps)
  then show ?case by (cases a) (auto simp: removePath_def)
qed (simp add: removePath_def)

lemma statementPath_container:
  "statementPath block i (container vs cs ps) = statementPath block i ps"
  by (simp add: statementPath_def nodeAt_container)

text \<open>Between a call and the statement around it there is no statement.\<close>

lemma exprPath_notStatement: "\<not> isStatement (Link (Some (type_expr e)) b)"
  by (cases e) (simp_all add: isStatement_def STATEMENT_TYPES_def)

lemma calls_expr_below:
  "(c, q) \<in> set (calls_expr p e) \<Longrightarrow>
   \<exists>pre. q = pre @ p \<and> list_all (\<lambda>l. \<not> isStatement l) pre"
proof (induction p e arbitrary: c q rule: calls_expr.induct)
  case (6 p f args)
  have step: "\<exists>pre. q = pre @ p \<and> list_all (\<lambda>l. \<not> isStatement l) pre"
    if "\<exists>pre. q = pre @ exprPath x b p \<and> list_all (\<lambda>l. \<not> isStatement l) pre" for x b
  proof -
    from that obtain pre where "q = pre @ exprPath x b p" "list_all (\<lambda>l. \<not> isStatement l) pre"
      by blast
    then have "q = (pre @ [Link (Some (type_expr x)) b]) @ p \<and>
               list_all (\<lambda>l. \<not> isStatement l) (pre @ [Link (Some (type_expr x)) b])"
      by (simp add: exprPath_def exprPath_notStatement)
    then show ?thesis by blast
  qed
  from "6.prems" consider (here) "c = f" "q = p"
    | (callee) "(c, q) \<in> set (calls_expr (exprPath f False p) f)"
    | (arg) a where "a \<in> set args" "(c, q) \<in> set (calls_expr (exprPath a True p) a)"
    by auto
  then show ?case
  proof cases
    case here
    then show ?thesis by (intro exI[of _ "[]"]) simp
  next
    case callee
    from step[OF "6.IH"(1)[OF callee]] show ?thesis .
  next
    case arg
    from step[OF "6.IH"(2)[OF arg]] show ?thesis .
  qed
next
  case (5 p ps fr e)
  then obtain pre where "q = pre @ exprPath e False p" "list_all (\<lambda>l. \<not> isStatement l) pre"
    by fastforce
  then have "q = (pre @ [Link (Some (type_expr e)) False]) @ p \<and>
             list_all (\<lambda>l. \<not> isStatement l) (pre @ [Link (Some (type_expr e)) False])"
    by (simp add: exprPath_def exprPath_notStatement)
  then show ?case by blast
next
  case (7 p obj pr computed)
  then obtain pre where "q = pre @ exprPath obj False p" "list_all (\<lambda>l. \<not> isStatement l) pre"
    by fastforce
  then have "q = (pre @ [Link (Some (type_expr obj)) False]) @ p \<and>
             list_all (\<lambda>l. \<not> isStatement l) (pre @ [Link (Some (type_expr obj)) False])"
    by (simp add: exprPath_def exprPath_notStatement)
  then show ?case by blast
next
  case (8 p n e)
  then obtain pre where "q = pre @ exprPath e False p" "list_all (\<lambda>l. \<not> isStatement l) pre"
    by fastforce
  then have "q = (pre @ [Link (Some (type_expr e)) False]) @ p \<and>
             list_all (\<lambda>l. \<not> isStatement l) (pre @ [Link (Some (type_expr e)) False])"
    by (simp add: exprPath_def exprPath_notStatement)
  then show ?case by blast
next
  case (9 p e t)
  then obtain pre where "q = pre @ exprPath e False p" "list_all (\<lambda>l. \<not> isStatement l) pre"
    by fastforce
  then have "q = (pre @ [Link (Some (type_expr e)) False]) @ p \<and>
             list_all (\<lambda>l. \<not> isStatement l) (pre @ [Link (Some (type_expr e)) False])"
    by (simp add: exprPath_def exprPath_notStatement)
  then show ?case by blast
next
  case (10 p e t)
  then obtain pre where "q = pre @ exprPath e False p" "list_all (\<lambda>l. \<not> isStatement l) pre"
    by fastforce
  then have "q = (pre @ [Link (Some (type_expr e)) False]) @ p \<and>
             list_all (\<lambda>l. \<not> isStatement l) (pre @ [Link (Some (type_expr e)) False])"
    by (simp add: exprPath_def exprPath_notStatement)
  then show ?case by blast
qed auto

lemma calls_expr_notStatement:
  "list_all (\<lambda>l. \<not> isStatement l) p \<Longrightarrow> (c, q) \<in> set (calls_expr p e) \<Longrightarrow>
   list_all (\<lambda>l. \<not> isStatement l) q"
  using calls_expr_below[of c q p e] by auto

lemma calls_declarator_notStatement:
  "(c, q) \<in> set (calls_declarator d) \<Longrightarrow> list_all (\<lambda>l. \<not> isStatement l) q"
proof (cases d)
  case (VariableDeclarator i n ini)
  assume a: "(c, q) \<in> set (calls_declarator d)"
  have p: "list_all (\<lambda>l. \<not> isStatement l) (exprPath e False (declaratorPath []))" for e
    by (simp add: exprPath_def declaratorPath_def exprPath_notStatement)
       (simp add: isStatement_def STATEMENT_TYPES_def)
  from a VariableDeclarator show ?thesis
    by (auto split: option.splits dest: calls_expr_notStatement[OF p])
qed

lemma calls_stmt_notStatement:
  "(c, q) \<in> set (calls_stmt s) \<Longrightarrow> list_all (\<lambda>l. \<not> isStatement l) q"
proof -
  have p: "list_all (\<lambda>l. \<not> isStatement l) (exprPath e False [])" for e
    by (simp add: exprPath_def exprPath_notStatement)
  assume "(c, q) \<in> set (calls_stmt s)"
  then show ?thesis
    by (cases s) (auto dest: calls_expr_notStatement[OF p] calls_declarator_notStatement)
qed

lemma getStatementParent_skip:
  "list_all (\<lambda>l. \<not> isStatement l) pre \<Longrightarrow> rest \<noteq> [] \<Longrightarrow>
   getStatementParent (pre @ rest) = getStatementParent rest"
  by (induction pre) auto

lemma getStatementParent_statement:
  assumes "isBlockPath block" and "list_all (\<lambda>l. \<not> isStatement l) below"
  shows "getStatementParent (below @ Link (Some (type_stmt s)) True # block) =
         Inr (Link (Some (type_stmt s)) True # block)"
proof -
  from assms(1) have ne: "block \<noteq> []" by (auto simp: isBlockPath_def)
  have st: "isStatement (Link (Some (type_stmt s)) True)"
    by (cases s) (simp_all add: isStatement_def STATEMENT_TYPES_def)
  have np: "\<not> isProgram (Link (Some (type_stmt s)) True)" "\<not> isFile (Link (Some (type_stmt s)) True)"
    by (cases s; simp add: isProgram_def isFile_def)+
  show ?thesis
    using getStatementParent_skip[OF assms(2), of "Link (Some (type_stmt s)) True # block"] st np
    by simp
qed

text \<open>What one call of \<^verbatim>\<open>visitCallExpr\<close> can do, and what it does below a block.\<close>

lemma visitCallExpr_other:
  "\<not> isGetterCallee g callee \<Longrightarrow> visitCallExpr g block i p callee c = Inr c"
  by (cases callee) (auto simp: visitCallExpr_def isGetterCallee_def)

lemma visitCallExpr_outcome:
  "visitCallExpr g block i p callee c = Inr c1 \<Longrightarrow>
   c1 = c \<or> (isGetterCallee g callee \<and>
             (\<exists>n. nodeAt i c = Some n \<and> c1 = insertBefore CallsHoistPoint n (removePath i c)))"
  by (cases "isGetterCallee g callee")
     (auto simp: visitCallExpr_def isGetterCallee_def visitCallExpr_other
        split: if_splits sum.splits list.splits option.splits expr.splits)

lemma visitCallExpr_attached:
  assumes "isBlockPath block" and "list_all (\<lambda>l. \<not> isStatement l) below"
    and "nodeAt i c = Some n" and "isGetterCallee g callee"
  shows "visitCallExpr g block i (below @ statementPath block i c) callee c =
         Inr (insertBefore CallsHoistPoint n (removePath i c))"
proof -
  from assms(1) obtain l up where b: "block = l # up" and bl: "isBlock l"
    by (cases block) (auto simp: isBlockPath_def)
  have sp: "statementPath block i c = Link (Some (type_stmt n)) True # block"
    by (simp add: statementPath_def assms(3))
  from assms(4) have cal: "(case callee of Identifier name \<Rightarrow> g = Some name | _ \<Rightarrow> False)"
    by (simp add: isGetterCallee_def)
  show ?thesis
    unfolding visitCallExpr_def sp getStatementParent_statement[OF assms(1,2)]
    using cal bl assms(3) by (simp add: b)
qed

lemma visitCallExprs_detached:
  "nodeAt i ps = None \<Longrightarrow> visitCallExprs g block i calls (container vs cs ps) = Inr c1 \<Longrightarrow>
   c1 = container vs cs ps"
proof (induction calls)
  case Nil
  then show ?case by simp
next
  case (Cons x calls)
  obtain callee below where x: "x = (callee, below)" by (cases x)
  from Cons.prems(2) obtain c2 where
    v: "visitCallExpr g block i (below @ statementPath block i (container vs cs ps)) callee
          (container vs cs ps) = Inr c2"
    and rest: "visitCallExprs g block i calls c2 = Inr c1"
    by (auto simp: x split: sum.splits)
  from visitCallExpr_outcome[OF v] Cons.prems(1) have "c2 = container vs cs ps"
    by (simp add: nodeAt_container)
  with Cons.IH[OF Cons.prems(1)] rest show ?case by simp
qed

lemma visitCallExprs_outcome:
  "nodeAt i ps = Some s \<Longrightarrow> visitCallExprs g block i calls (container vs cs ps) = Inr c1 \<Longrightarrow>
   c1 = container vs cs ps \<or>
   (list_ex (isGetterCallee g) (map fst calls) \<and>
    c1 = container vs (cs @ [s]) (removePath i ps))"
proof (induction calls)
  case Nil
  then show ?case by simp
next
  case (Cons x calls)
  obtain callee below where x: "x = (callee, below)" by (cases x)
  from Cons.prems(2) obtain c2 where
    v: "visitCallExpr g block i (below @ statementPath block i (container vs cs ps)) callee
          (container vs cs ps) = Inr c2"
    and rest: "visitCallExprs g block i calls c2 = Inr c1"
    by (auto simp: x split: sum.splits)
  from visitCallExpr_outcome[OF v] Cons.prems(1) consider
      (same) "c2 = container vs cs ps"
    | (moved) "isGetterCallee g callee" "c2 = container vs (cs @ [s]) (removePath i ps)"
    by (auto simp: nodeAt_container removePath_container insertBefore_calls)
  then show ?case
  proof cases
    case same
    with Cons.IH[OF Cons.prems(1)] rest show ?thesis by (auto simp: x)
  next
    case moved
    from visitCallExprs_detached[OF nodeAt_removePath rest[unfolded moved(2)]] moved
    show ?thesis by (simp add: x)
  qed
qed

lemma visitCallExprs_attached:
  assumes "isBlockPath block"
  shows "\<forall>(c, q) \<in> set calls. list_all (\<lambda>l. \<not> isStatement l) q \<Longrightarrow>
   nodeAt i ps = Some s \<Longrightarrow> visitCallExprs g block i calls (container vs cs ps) = Inr c1 \<Longrightarrow>
   c1 = (if list_ex (isGetterCallee g) (map fst calls)
         then container vs (cs @ [s]) (removePath i ps) else container vs cs ps)"
proof (induction calls)
  case Nil
  then show ?case by simp
next
  case (Cons x calls)
  obtain callee below where x: "x = (callee, below)" by (cases x)
  from Cons.prems(1) have nb: "list_all (\<lambda>l. \<not> isStatement l) below"
    and nr: "\<forall>(c, q) \<in> set calls. list_all (\<lambda>l. \<not> isStatement l) q"
    by (auto simp: x)
  from Cons.prems(3) obtain c2 where
    v: "visitCallExpr g block i (below @ statementPath block i (container vs cs ps)) callee
          (container vs cs ps) = Inr c2"
    and rest: "visitCallExprs g block i calls c2 = Inr c1"
    by (auto simp: x split: sum.splits)
  show ?case
  proof (cases "isGetterCallee g callee")
    case True
    have n: "nodeAt i (container vs cs ps) = Some s" using Cons.prems(2) by (simp add: nodeAt_container)
    from visitCallExpr_attached[OF assms nb n True] v
    have c2: "c2 = container vs (cs @ [s]) (removePath i ps)"
      by (simp add: removePath_container insertBefore_calls)
    from visitCallExprs_detached[OF nodeAt_removePath rest[unfolded c2]] True c2
    show ?thesis by (simp add: x)
  next
    case False
    from v visitCallExpr_other[OF False] have "c2 = container vs cs ps" by simp
    with Cons.IH[OF nr Cons.prems(2)] rest False show ?thesis by (simp add: x)
  qed
qed

text \<open>The walk of the declarators of a declaration.\<close>

definition getterIn :: "string option \<Rightarrow> declarator \<Rightarrow> bool" where
  "getterIn g d = list_ex (isGetterCallee g) (map fst (calls_declarator d))"

lemma visitDeclarators_detached:
  "nodeAt i ps = None \<Longrightarrow> visitDeclarators g hv block i ds (container vs cs ps) = Inr c1 \<Longrightarrow>
   c1 = container vs cs ps"
proof (induction ds)
  case Nil
  then show ?case by simp
next
  case (Cons d ds)
  from Cons.prems obtain c2 c3 where
    a: "visitVariableDeclarator hv i d (container vs cs ps) = Inr c2"
    and b: "visitCallExprs g block i (calls_declarator d) c2 = Inr c3"
    and rest: "visitDeclarators g hv block i ds c3 = Inr c1"
    by (auto split: sum.splits)
  from a Cons.prems(1) have c2: "c2 = container vs cs ps"
    by (auto simp: visitVariableDeclarator_def nodeAt_container split: if_splits)
  from visitCallExprs_detached[OF Cons.prems(1) b[unfolded c2]] have "c3 = container vs cs ps" .
  with Cons.IH[OF Cons.prems(1)] rest show ?case by simp
qed

lemma single_declaration:
  "length (pre @ d # ds) = 1 \<Longrightarrow> pre = [] \<and> ds = []"
  by (cases pre) auto

lemma visitDeclarators_outcome:
  "nodeAt i ps = Some (VariableDeclaration kind (pre @ ds)) \<Longrightarrow>
   visitDeclarators g hv block i ds (container vs cs ps) = Inr c1 \<Longrightarrow>
   c1 = container vs cs ps \<or>
   c1 = container (vs @ [VariableDeclaration kind (pre @ ds)]) cs (removePath i ps) \<or>
   c1 = container vs (cs @ [VariableDeclaration kind (pre @ ds)]) (removePath i ps)"
proof (induction ds arbitrary: pre)
  case Nil
  then show ?case by simp
next
  case (Cons d ds)
  let ?s = "VariableDeclaration kind (pre @ d # ds)"
  from Cons.prems obtain c2 c3 where
    a: "visitVariableDeclarator hv i d (container vs cs ps) = Inr c2"
    and b: "visitCallExprs g block i (calls_declarator d) c2 = Inr c3"
    and rest: "visitDeclarators g hv block i ds c3 = Inr c1"
    by (auto split: sum.splits)
  show ?case
  proof (cases "declaratorId d \<in> hv")
    case True
    with a Cons.prems(1) have one: "length (pre @ d # ds) = 1"
      and c2: "c2 = container (vs @ [VariableDeclaration kind [d]]) cs (removePath i ps)"
      by (auto simp: visitVariableDeclarator_def nodeAt_container removePath_container
          insertBefore_vars split: if_splits)
    from single_declaration[OF one] have e: "pre = []" "ds = []" by simp_all
    from visitCallExprs_detached[OF nodeAt_removePath b[unfolded c2]] rest e c2
    show ?thesis by simp
  next
    case False
    with a have c2: "c2 = container vs cs ps" by (simp add: visitVariableDeclarator_def)
    from visitCallExprs_outcome[OF Cons.prems(1) b[unfolded c2]] consider
        (same) "c3 = container vs cs ps"
      | (moved) "c3 = container vs (cs @ [?s]) (removePath i ps)"
      by auto
    then show ?thesis
    proof cases
      case same
      have n: "nodeAt i ps = Some (VariableDeclaration kind ((pre @ [d]) @ ds))"
        using Cons.prems(1) by simp
      from Cons.IH[OF n rest[unfolded same]] show ?thesis by simp
    next
      case moved
      from visitDeclarators_detached[OF nodeAt_removePath rest[unfolded moved]] moved
      show ?thesis by simp
    qed
  qed
qed

lemma hasGetterCall_declaration:
  "hasGetterCall g (VariableDeclaration kind ds) = list_ex (getterIn g) ds"
  by (induction ds) (auto simp: hasGetterCall_def getterIn_def)

lemma isHoistedVar_iff:
  "isHoistedVar hv s = (\<exists>kind d. s = VariableDeclaration kind [d] \<and> declaratorId d \<in> hv)"
  by (cases "(hv, s)" rule: isHoistedVar.cases) auto

lemma isHoistedVar_unmarked:
  "\<forall>d \<in> set ds. declaratorId d \<notin> hv \<Longrightarrow> \<not> isHoistedVar hv (VariableDeclaration kind ds)"
  by (auto simp: isHoistedVar_iff)

lemma visitDeclarators_attached:
  assumes "isBlockPath block"
  shows "nodeAt i ps = Some (VariableDeclaration kind (pre @ ds)) \<Longrightarrow>
   \<forall>d \<in> set pre. declaratorId d \<notin> hv \<and> \<not> getterIn g d \<Longrightarrow>
   visitDeclarators g hv block i ds (container vs cs ps) = Inr c1 \<Longrightarrow>
   c1 = (let s = VariableDeclaration kind (pre @ ds)
         in if isHoistedVar hv s then container (vs @ [s]) cs (removePath i ps)
            else if hasGetterCall g s then container vs (cs @ [s]) (removePath i ps)
            else container vs cs ps)"
proof (induction ds arbitrary: pre)
  case Nil
  from Nil.prems(2) have "\<not> isHoistedVar hv (VariableDeclaration kind pre)"
    by (auto simp: isHoistedVar_iff)
  moreover from Nil.prems(2) have "\<not> hasGetterCall g (VariableDeclaration kind pre)"
    by (auto simp: hasGetterCall_declaration list_ex_iff)
  ultimately show ?case using Nil.prems(3) by simp
next
  case (Cons d ds)
  let ?s = "VariableDeclaration kind (pre @ d # ds)"
  from Cons.prems obtain c2 c3 where
    a: "visitVariableDeclarator hv i d (container vs cs ps) = Inr c2"
    and b: "visitCallExprs g block i (calls_declarator d) c2 = Inr c3"
    and rest: "visitDeclarators g hv block i ds c3 = Inr c1"
    by (auto split: sum.splits)
  show ?case
  proof (cases "declaratorId d \<in> hv")
    case True
    with a Cons.prems(1) have one: "length (pre @ d # ds) = 1"
      and c2: "c2 = container (vs @ [VariableDeclaration kind [d]]) cs (removePath i ps)"
      by (auto simp: visitVariableDeclarator_def nodeAt_container removePath_container
          insertBefore_vars split: if_splits)
    from single_declaration[OF one] have e: "pre = []" "ds = []" by simp_all
    from visitCallExprs_detached[OF nodeAt_removePath b[unfolded c2]] rest e c2 True
    show ?thesis by simp
  next
    case False
    with a have c2: "c2 = container vs cs ps" by (simp add: visitVariableDeclarator_def)
    have nh: "\<not> isHoistedVar hv ?s"
    proof
      assume h: "isHoistedVar hv ?s"
      then obtain da where "pre @ d # ds = [da]" by (auto simp: isHoistedVar_iff)
      then have "length (pre @ d # ds) = length [da]" by (rule arg_cong)
      then have "length (pre @ d # ds) = 1" by simp
      from single_declaration[OF this] h False show False by simp
    qed
    have nq: "\<forall>(c, q) \<in> set (calls_declarator d). list_all (\<lambda>l. \<not> isStatement l) q"
      by (auto dest: calls_declarator_notStatement)
    note v = visitCallExprs_attached[OF assms nq Cons.prems(1) b[unfolded c2]]
    show ?thesis
    proof (cases "getterIn g d")
      case True
      with v have c3: "c3 = container vs (cs @ [?s]) (removePath i ps)"
        by (simp add: getterIn_def)
      have "hasGetterCall g ?s" using True by (simp add: hasGetterCall_declaration)
      with visitDeclarators_detached[OF nodeAt_removePath rest[unfolded c3]] c3 nh
      show ?thesis by simp
    next
      case ng: False
      with v have c3: "c3 = container vs cs ps" by (simp add: getterIn_def)
      have n: "nodeAt i ps = Some (VariableDeclaration kind ((pre @ [d]) @ ds))"
        using Cons.prems(1) by simp
      have p: "\<forall>x \<in> set (pre @ [d]). declaratorId x \<notin> hv \<and> \<not> getterIn g x"
        using Cons.prems(2) False ng by auto
      from Cons.IH[OF n p rest[unfolded c3]] show ?thesis by simp
    qed
  qed
qed

lemma nodeAt_pathSlots: "i \<notin> fst ` set L \<Longrightarrow> nodeAt i (pathSlots (L @ (i, s) # q)) = Some s"
  by (induction L) (auto simp: pathSlots_def)

lemma removePath_absent: "i \<notin> fst ` set L \<Longrightarrow> removePath i (pathSlots L) = pathSlots L"
  by (induction L) (auto simp: pathSlots_def removePath_def)

lemma pathSlots_append: "pathSlots (xs @ ys) = pathSlots xs @ pathSlots ys"
  by (simp add: pathSlots_def)

lemma removePath_append: "removePath i (xs @ ys) = removePath i xs @ removePath i ys"
  by (simp add: removePath_def)

lemma removePath_pathSlots:
  "i \<notin> fst ` set L \<Longrightarrow> i \<notin> fst ` set q \<Longrightarrow>
   removePath i (pathSlots (L @ (i, s) # q)) = pathSlots (L @ q)"
  using removePath_absent[of i L] removePath_absent[of i q]
  by (simp add: pathSlots_append removePath_append) (simp add: pathSlots_def removePath_def)

text \<open>
  The walk of one statement leaves the statement in exactly one of three places: among
  the hoisted declarations, among the hoisted calls, or where it was.
\<close>

lemma traverseStatement_outcome:
  assumes "i \<notin> fst ` set L" "i \<notin> fst ` set q"
    and "traverseStatement g hv block i s (container vs cs (pathSlots (L @ (i, s) # q))) = Inr c1"
  shows "c1 = container vs cs (pathSlots (L @ (i, s) # q)) \<or>
         c1 = container (vs @ [s]) cs (pathSlots (L @ q)) \<or>
         c1 = container vs (cs @ [s]) (pathSlots (L @ q))"
proof -
  let ?ps = "pathSlots (L @ (i, s) # q)"
  have na: "nodeAt i ?ps = Some s" using assms(1) by (rule nodeAt_pathSlots)
  note rm = removePath_pathSlots[OF assms(1,2), of s]
  show ?thesis
  proof (cases s)
    case (VariableDeclaration kind ds)
    have n: "nodeAt i ?ps = Some (VariableDeclaration kind ([] @ ds))"
      using na VariableDeclaration by simp
    have v: "visitDeclarators g hv block i ds (container vs cs ?ps) = Inr c1"
      using assms(3) VariableDeclaration by simp
    from visitDeclarators_outcome[OF n v] show ?thesis
      using rm by (simp add: VariableDeclaration)
  qed (use assms(3) visitCallExprs_outcome[OF na, of g block "calls_stmt s" vs cs c1] rm
       in auto)
qed

lemma traverseStatement_attached:
  assumes "isBlockPath block" and "i \<notin> fst ` set L" "i \<notin> fst ` set q"
    and "traverseStatement g hv block i s (container vs cs (pathSlots (L @ (i, s) # q))) = Inr c1"
  shows "c1 = (if isHoistedVar hv s then container (vs @ [s]) cs (pathSlots (L @ q))
               else if hasGetterCall g s then container vs (cs @ [s]) (pathSlots (L @ q))
               else container vs cs (pathSlots (L @ (i, s) # q)))"
proof -
  let ?ps = "pathSlots (L @ (i, s) # q)"
  have na: "nodeAt i ?ps = Some s" using assms(2) by (rule nodeAt_pathSlots)
  note rm = removePath_pathSlots[OF assms(2,3), of s]
  have nq: "\<forall>(c, p) \<in> set (calls_stmt s). list_all (\<lambda>l. \<not> isStatement l) p"
    by (auto dest: calls_stmt_notStatement)
  show ?thesis
  proof (cases s)
    case (VariableDeclaration kind ds)
    have n: "nodeAt i ?ps = Some (VariableDeclaration kind ([] @ ds))"
      using na VariableDeclaration by simp
    have v: "visitDeclarators g hv block i ds (container vs cs ?ps) = Inr c1"
      using assms(4) VariableDeclaration by simp
    from visitDeclarators_attached[OF assms(1) n _ v] show ?thesis
      using rm by (simp add: VariableDeclaration Let_def)
  qed (use assms(4) visitCallExprs_attached[OF assms(1) nq na, of g vs cs c1] rm
       in \<open>auto simp: hasGetterCall_def\<close>)
qed

lemma traverseStatements_outcome:
  "distinct (map fst (L @ q)) \<Longrightarrow>
   traverseStatements g hv block q (container vs cs (pathSlots (L @ q))) = Inr c1 \<Longrightarrow>
   \<exists>A B M. c1 = container (vs @ A) (cs @ B) (pathSlots (L @ M)) \<and>
           mset A + mset B + mset (map snd M) = mset (map snd q)"
proof (induction q arbitrary: L vs cs)
  case Nil
  then show ?case by (intro exI[of _ "[]"]) simp
next
  case (Cons x q)
  obtain i s where x: "x = (i, s)" by (cases x)
  from Cons.prems(1) have iL: "i \<notin> fst ` set L" and iq: "i \<notin> fst ` set q"
    and dq: "distinct (map fst (L @ q))" and dq': "distinct (map fst ((L @ [(i, s)]) @ q))"
    by (auto simp: x)
  from Cons.prems(2) obtain c2 where
    c2: "traverseStatement g hv block i s (container vs cs (pathSlots (L @ (i, s) # q))) = Inr c2"
    and rest: "traverseStatements g hv block q c2 = Inr c1"
    by (auto simp: x split: sum.splits)
  from traverseStatement_outcome[OF iL iq c2] consider
      (stay) "c2 = container vs cs (pathSlots ((L @ [(i, s)]) @ q))"
    | (vars) "c2 = container (vs @ [s]) cs (pathSlots (L @ q))"
    | (calls) "c2 = container vs (cs @ [s]) (pathSlots (L @ q))"
    by auto
  then show ?case
  proof cases
    case stay
    from Cons.IH[OF dq' rest[unfolded stay]] obtain A B M where
      "c1 = container (vs @ A) (cs @ B) (pathSlots ((L @ [(i, s)]) @ M))"
      "mset A + mset B + mset (map snd M) = mset (map snd q)" by blast
    then have "c1 = container (vs @ A) (cs @ B) (pathSlots (L @ ((i, s) # M))) \<and>
               mset A + mset B + mset (map snd ((i, s) # M)) = mset (map snd (x # q))"
      by (simp add: x)
    then show ?thesis by blast
  next
    case vars
    from Cons.IH[OF dq rest[unfolded vars]] obtain A B M where
      "c1 = container ((vs @ [s]) @ A) (cs @ B) (pathSlots (L @ M))"
      "mset A + mset B + mset (map snd M) = mset (map snd q)" by blast
    then have "c1 = container (vs @ (s # A)) (cs @ B) (pathSlots (L @ M)) \<and>
               mset (s # A) + mset B + mset (map snd M) = mset (map snd (x # q))"
      by (simp add: x)
    then show ?thesis by blast
  next
    case calls
    from Cons.IH[OF dq rest[unfolded calls]] obtain A B M where
      "c1 = container (vs @ A) ((cs @ [s]) @ B) (pathSlots (L @ M))"
      "mset A + mset B + mset (map snd M) = mset (map snd q)" by blast
    then have "c1 = container (vs @ A) (cs @ (s # B)) (pathSlots (L @ M)) \<and>
               mset A + mset (s # B) + mset (map snd M) = mset (map snd (x # q))"
      by (simp add: x)
    then show ?thesis by blast
  qed
qed

lemma traverseStatements_attached:
  assumes "isBlockPath block"
  shows "distinct (map fst (L @ q)) \<Longrightarrow>
   traverseStatements g hv block q (container vs cs (pathSlots (L @ q))) = Inr c1 \<Longrightarrow>
   c1 = container (vs @ filter (isHoistedVar hv) (map snd q))
          (cs @ filter (isHoistedCall g hv) (map snd q))
          (pathSlots (L @ filter (\<lambda>(i, s). isKept g hv s) q))"
proof (induction q arbitrary: L vs cs)
  case Nil
  then show ?case by simp
next
  case (Cons x q)
  obtain i s where x: "x = (i, s)" by (cases x)
  from Cons.prems(1) have iL: "i \<notin> fst ` set L" and iq: "i \<notin> fst ` set q"
    and dq: "distinct (map fst (L @ q))" and dq': "distinct (map fst ((L @ [(i, s)]) @ q))"
    by (auto simp: x)
  from Cons.prems(2) obtain c2 where
    c2: "traverseStatement g hv block i s (container vs cs (pathSlots (L @ (i, s) # q))) = Inr c2"
    and rest: "traverseStatements g hv block q c2 = Inr c1"
    by (auto simp: x split: sum.splits)
  note e = traverseStatement_attached[OF assms iL iq c2]
  show ?case
  proof (cases "isHoistedVar hv s")
    case True
    with e have "c2 = container (vs @ [s]) cs (pathSlots (L @ q))" by simp
    from Cons.IH[OF dq rest[unfolded this]] True show ?thesis
      by (simp add: x isHoistedCall_def isKept_def)
  next
    case nv: False
    show ?thesis
    proof (cases "hasGetterCall g s")
      case True
      with e nv have "c2 = container vs (cs @ [s]) (pathSlots (L @ q))" by simp
      from Cons.IH[OF dq rest[unfolded this]] True nv show ?thesis
        by (simp add: x isHoistedCall_def isKept_def)
    next
      case False
      with e nv have "c2 = container vs cs (pathSlots ((L @ [(i, s)]) @ q))" by simp
      from Cons.IH[OF dq' rest[unfolded this]] False nv show ?thesis
        by (simp add: x isHoistedCall_def isKept_def)
    qed
  qed
qed

lemma slotNodes_container:
  "slotNodes (filter (\<lambda>sl. sl \<noteq> VarsHoistPoint) (filter (\<lambda>sl. sl \<noteq> CallsHoistPoint)
      (container vs cs (pathSlots q)))) = vs @ cs @ map snd q"
proof -
  have a: "slotNodes (map Inserted xs @ c) = xs @ slotNodes c" for xs c
    by (induction xs) auto
  have b: "filter (\<lambda>sl. sl \<noteq> VarsHoistPoint) (map Inserted xs) = map Inserted xs"
    "filter (\<lambda>sl. sl \<noteq> CallsHoistPoint) (map Inserted xs) = map Inserted xs" for xs
    by (induction xs) auto
  have c: "filter (\<lambda>sl. sl \<noteq> VarsHoistPoint) (pathSlots q) = pathSlots q"
    "filter (\<lambda>sl. sl \<noteq> CallsHoistPoint) (pathSlots q) = pathSlots q"
    by (induction q) (auto simp: pathSlots_def)
  have d: "slotNodes (pathSlots q) = map snd q"
    by (induction q) (auto simp: pathSlots_def)
  show ?thesis by (simp add: container_def a b c d)
qed

text \<open>
  Whatever the path of the block, \<^verbatim>\<open>visitBlock\<close> returns the statements of the block
  in another order. Below the path of a block the order is the one of the
  specification.
\<close>

lemma visitBlock_mset:
  assumes "visitBlock g hv block body = Inr body1"
  shows "mset body1 = mset body"
proof -
  let ?q = "zip [0 ..< length body] body"
  have sq: "map snd ?q = body" by simp
  have dq: "distinct (map fst ([] @ ?q))" by simp
  from assms obtain c1 where
    t: "traverseStatements g hv block ?q (container [] [] (pathSlots ([] @ ?q))) = Inr c1"
    and b: "body1 = slotNodes (filter (\<lambda>sl. sl \<noteq> VarsHoistPoint)
                 (filter (\<lambda>sl. sl \<noteq> CallsHoistPoint) c1))"
    by (auto simp: visitBlock_def Let_def container_def pathSlots_def split: sum.splits)
  from traverseStatements_outcome[OF dq t] obtain A B M where
    c1: "c1 = container ([] @ A) ([] @ B) (pathSlots ([] @ M))"
    and m: "mset A + mset B + mset (map snd M) = mset (map snd ?q)" by blast
  from c1 have "c1 = container A B (pathSlots M)" by simp
  then have "body1 = A @ B @ map snd M" unfolding b by (simp only: slotNodes_container)
  with m sq show ?thesis by (simp add: ac_simps)
qed

lemma visitBlock_spec:
  assumes "isBlockPath block" and "visitBlock g hv block body = Inr body1"
  shows "body1 = spec_visitBlock g hv body"
proof -
  let ?q = "zip [0 ..< length body] body"
  have sq: "map snd ?q = body" by simp
  have dq: "distinct (map fst ([] @ ?q))" by simp
  from assms(2) obtain c1 where
    t: "traverseStatements g hv block ?q (container [] [] (pathSlots ([] @ ?q))) = Inr c1"
    and b: "body1 = slotNodes (filter (\<lambda>sl. sl \<noteq> VarsHoistPoint)
                 (filter (\<lambda>sl. sl \<noteq> CallsHoistPoint) c1))"
    by (auto simp: visitBlock_def Let_def container_def pathSlots_def split: sum.splits)
  have k: "map snd (filter (\<lambda>(i, s). isKept g hv s) q) = filter (isKept g hv) (map snd q)"
    for q :: "(nat \<times> stmt) list"
    by (induction q) auto
  from traverseStatements_attached[OF assms(1) dq t] show ?thesis
    unfolding b spec_visitBlock_def
    by (simp only: slotNodes_container k sq append_Nil)
qed

lemma mset_sum_list:
  "mset xs = mset ys \<Longrightarrow> sum_list (map f xs) = sum_list (map (f :: 'a \<Rightarrow> nat) ys)"
proof -
  assume "mset xs = mset ys"
  then have "mset (map f xs) = mset (map f ys)" by simp
  then have "sum_mset (mset (map f xs)) = sum_mset (mset (map f ys))" by simp
  then show ?thesis by (simp only: sum_mset_sum_list)
qed

lemma weight_visitBlock:
  assumes "visitBlock g hv block body = Inr body1"
  shows "sum_list (map weight_stmt body1) = sum_list (map weight_stmt body)"
  by (rule mset_sum_list[OF visitBlock_mset[OF assms]])

lemma weight_replace:
  "weight_expr new = 0 \<Longrightarrow> weight_expr (replaceJestObjExpr h s new e) \<le> weight_expr e"
  by (induction h s new e rule: replaceJestObjExpr.induct) auto

text \<open>The walk does not look into the nested blocks.\<close>

lemma nodeAt_mapSlot: "nodeAt i (map (mapSlot f) c) = map_option f (nodeAt i c)"
proof (induction c)
  case (Cons a c)
  then show ?case by (cases a) auto
qed simp

lemma removePath_mapSlot: "removePath i (map (mapSlot f) c) = map (mapSlot f) (removePath i c)"
proof (induction c)
  case (Cons a c)
  then show ?case by (cases a) (auto simp: removePath_def)
qed (simp add: removePath_def)

lemma insertBefore_mapSlot:
  "point = VarsHoistPoint \<or> point = CallsHoistPoint \<Longrightarrow>
   insertBefore point (f n) (map (mapSlot f) c) = map (mapSlot f) (insertBefore point n c)"
proof (induction c)
  case (Cons a c)
  then show ?case by (cases a) auto
qed simp

lemma type_expr_mapBlocks [simp]: "type_expr (mapBlocks_expr f e) = type_expr e"
  by (cases e) auto

lemma type_stmt_mapBlocks [simp]: "type_stmt (mapBlocks_stmt f s) = type_stmt s"
  by (cases s) auto

lemma statementPath_mapSlot [simp]:
  "statementPath block i (map (mapSlot (mapBlocks_stmt f)) c) = statementPath block i c"
  by (simp add: statementPath_def nodeAt_mapSlot option.map_comp comp_def)

lemma isGetterCallee_mapBlocks [simp]:
  "isGetterCallee g (mapBlocks_expr f c) = isGetterCallee g c"
  by (cases c) (auto simp: isGetterCallee_def)

lemma calls_expr_mapBlocks:
  "calls_expr p (mapBlocks_expr f e) = map (\<lambda>(c, q). (mapBlocks_expr f c, q)) (calls_expr p e)"
  by (induction p e rule: calls_expr.induct)
     (auto simp: map_concat comp_def exprPath_def intro!: arg_cong[where f=concat])

lemma calls_declarator_mapBlocks:
  "calls_declarator (mapBlocks_declarator f d) =
   map (\<lambda>(c, q). (mapBlocks_expr f c, q)) (calls_declarator d)"
  by (cases d) (auto simp: calls_expr_mapBlocks exprPath_def split: option.splits)

lemma declaratorId_mapBlocks [simp]: "declaratorId (mapBlocks_declarator f d) = declaratorId d"
  by (cases d) simp

lemma calls_stmt_mapBlocks:
  "calls_stmt (mapBlocks_stmt f s) = map (\<lambda>(c, q). (mapBlocks_expr f c, q)) (calls_stmt s)"
  by (cases s)
     (auto simp: calls_expr_mapBlocks calls_declarator_mapBlocks map_concat comp_def exprPath_def)

lemma hasGetterCall_mapBlocks [simp]: "hasGetterCall g (mapBlocks_stmt f s) = hasGetterCall g s"
  by (simp add: hasGetterCall_def calls_stmt_mapBlocks list_ex_iff) force

lemma isHoistedVar_mapBlocks [simp]: "isHoistedVar hv (mapBlocks_stmt f s) = isHoistedVar hv s"
  by (cases "(hv, s)" rule: isHoistedVar.cases) auto

lemma visitCallExpr_mapBlocks:
  "visitCallExpr g block i p (mapBlocks_expr f callee) (map (mapSlot (mapBlocks_stmt f)) c) =
   map_sum (\<lambda>e. e) (map (mapSlot (mapBlocks_stmt f))) (visitCallExpr g block i p callee c)"
proof (cases "isGetterCallee g callee")
  case False
  then show ?thesis by (simp add: visitCallExpr_other)
next
  case True
  then have a: "(case callee of Identifier name \<Rightarrow> g = Some name | _ \<Rightarrow> False)"
    and b: "(case mapBlocks_expr f callee of Identifier name \<Rightarrow> g = Some name | _ \<Rightarrow> False)"
    using isGetterCallee_mapBlocks[of g f callee] by (simp_all add: isGetterCallee_def)
  show ?thesis
    unfolding visitCallExpr_def
    by (simp only: a b if_True)
       (auto simp: nodeAt_mapSlot removePath_mapSlot insertBefore_mapSlot
          split: sum.splits list.splits option.splits)
qed

lemma visitCallExprs_mapBlocks:
  "visitCallExprs g block i (map (\<lambda>(c, q). (mapBlocks_expr f c, q)) calls)
     (map (mapSlot (mapBlocks_stmt f)) c) =
   map_sum (\<lambda>e. e) (map (mapSlot (mapBlocks_stmt f))) (visitCallExprs g block i calls c)"
proof (induction calls arbitrary: c)
  case Nil
  show ?case by simp
next
  case (Cons x calls)
  obtain callee below where x: "x = (callee, below)" by (cases x)
  show ?case
    by (cases "visitCallExpr g block i (below @ statementPath block i c) callee c")
       (simp_all add: x visitCallExpr_mapBlocks Cons.IH)
qed

lemma visitVariableDeclarator_mapBlocks:
  "visitVariableDeclarator hv i (mapBlocks_declarator f d) (map (mapSlot (mapBlocks_stmt f)) c) =
   map_sum (\<lambda>e. e) (map (mapSlot (mapBlocks_stmt f))) (visitVariableDeclarator hv i d c)"
proof (cases "nodeAt i c")
  case None
  then show ?thesis by (simp add: visitVariableDeclarator_def nodeAt_mapSlot)
next
  case (Some s)
  have ins: "insertBefore VarsHoistPoint (VariableDeclaration kind [mapBlocks_declarator f d])
               (map (mapSlot (mapBlocks_stmt f)) c') =
             map (mapSlot (mapBlocks_stmt f))
               (insertBefore VarsHoistPoint (VariableDeclaration kind [d]) c')" for kind c'
    using insertBefore_mapSlot[of VarsHoistPoint "mapBlocks_stmt f" "VariableDeclaration kind [d]" c']
    by simp
  show ?thesis
    by (cases s)
       (simp_all add: visitVariableDeclarator_def nodeAt_mapSlot Some removePath_mapSlot ins)
qed

lemma visitDeclarators_mapBlocks:
  "visitDeclarators g hv block i (map (mapBlocks_declarator f) ds)
     (map (mapSlot (mapBlocks_stmt f)) c) =
   map_sum (\<lambda>e. e) (map (mapSlot (mapBlocks_stmt f))) (visitDeclarators g hv block i ds c)"
proof (induction ds arbitrary: c)
  case Nil
  show ?case by simp
next
  case (Cons d ds)
  show ?case
  proof (cases "visitVariableDeclarator hv i d c")
    case (Inl e)
    then show ?thesis by (simp add: visitVariableDeclarator_mapBlocks)
  next
    case (Inr c1)
    show ?thesis
      by (cases "visitCallExprs g block i (calls_declarator d) c1")
         (simp_all add: visitVariableDeclarator_mapBlocks Inr calls_declarator_mapBlocks
            visitCallExprs_mapBlocks Cons.IH)
  qed
qed

lemma traverseStatement_mapBlocks:
  "traverseStatement g hv block i (mapBlocks_stmt f s) (map (mapSlot (mapBlocks_stmt f)) c) =
   map_sum (\<lambda>e. e) (map (mapSlot (mapBlocks_stmt f))) (traverseStatement g hv block i s c)"
proof (cases s)
  case (VariableDeclaration kind ds)
  then show ?thesis by (simp add: visitDeclarators_mapBlocks)
next
  case (ExpressionStatement e)
  have "traverseStatement g hv block i (mapBlocks_stmt f s) c' =
        visitCallExprs g block i (calls_stmt (mapBlocks_stmt f s)) c'" for c'
    by (simp add: ExpressionStatement)
  then show ?thesis
    by (simp add: calls_stmt_mapBlocks visitCallExprs_mapBlocks) (simp add: ExpressionStatement)
next
  case (IfStatement test fr body)
  have "traverseStatement g hv block i (mapBlocks_stmt f s) c' =
        visitCallExprs g block i (calls_stmt (mapBlocks_stmt f s)) c'" for c'
    by (simp add: IfStatement)
  then show ?thesis
    by (simp add: calls_stmt_mapBlocks visitCallExprs_mapBlocks) (simp add: IfStatement)
next
  case (ReturnStatement e)
  have "traverseStatement g hv block i (mapBlocks_stmt f s) c' =
        visitCallExprs g block i (calls_stmt (mapBlocks_stmt f s)) c'" for c'
    by (simp add: ReturnStatement)
  then show ?thesis
    by (simp add: calls_stmt_mapBlocks visitCallExprs_mapBlocks) (simp add: ReturnStatement)
qed simp_all

lemma traverseStatements_mapBlocks:
  "traverseStatements g hv block (map (\<lambda>(i, s). (i, mapBlocks_stmt f s)) q)
     (map (mapSlot (mapBlocks_stmt f)) c) =
   map_sum (\<lambda>e. e) (map (mapSlot (mapBlocks_stmt f))) (traverseStatements g hv block q c)"
proof (induction q arbitrary: c)
  case Nil
  show ?case by simp
next
  case (Cons x q)
  obtain i s where x: "x = (i, s)" by (cases x)
  show ?case
    by (cases "traverseStatement g hv block i s c")
       (simp_all add: x traverseStatement_mapBlocks Cons.IH)
qed

lemma slotNodes_mapSlot:
  "slotNodes (filter (\<lambda>sl. sl \<noteq> VarsHoistPoint) (filter (\<lambda>sl. sl \<noteq> CallsHoistPoint)
     (map (mapSlot f) c))) =
   map f (slotNodes (filter (\<lambda>sl. sl \<noteq> VarsHoistPoint) (filter (\<lambda>sl. sl \<noteq> CallsHoistPoint) c)))"
proof (induction c)
  case (Cons a c)
  then show ?case by (cases a) auto
qed simp

lemma visitBlock_mapBlocks:
  "visitBlock g hv block (map (mapBlocks_stmt f) body) =
   map_sum (\<lambda>e. e) (map (mapBlocks_stmt f)) (visitBlock g hv block body)"
proof -
  let ?q = "zip [0 ..< length body] body"
  let ?c = "[VarsHoistPoint, CallsHoistPoint] @ map (\<lambda>(i, s). Path i s) ?q"
  have q: "zip [0 ..< length (map (mapBlocks_stmt f) body)] (map (mapBlocks_stmt f) body) =
           map (\<lambda>(i, s). (i, mapBlocks_stmt f s)) ?q"
    by (simp add: zip_map2)
  have c: "[VarsHoistPoint, CallsHoistPoint] @
           map (\<lambda>(i, s). Path i s) (map (\<lambda>(i, s). (i, mapBlocks_stmt f s)) ?q) =
           map (mapSlot (mapBlocks_stmt f)) ?c"
    by (simp add: comp_def case_prod_beta)
  show ?thesis
  proof (cases "traverseStatements g hv block ?q ?c")
    case (Inl e)
    then show ?thesis
      unfolding visitBlock_def Let_def q c traverseStatements_mapBlocks by simp
  next
    case (Inr c1)
    then show ?thesis
      unfolding visitBlock_def Let_def q c traverseStatements_mapBlocks
      by (simp only: map_sum.simps sum.case slotNodes_mapSlot)
  qed
qed

section \<open>The plugin: state, getter, visitor and the pass after the visit\<close>

text \<open>
  The state of one run: \<^verbatim>\<open>this.jestObjGetterIdentifier\<close>, the weak set
  \<^verbatim>\<open>hoistedVariables\<close> of the module, and the statements that
  \<^verbatim>\<open>program.unshiftContainer\<close> has put in front of the body of the program while the
  visit is inside of that body.
\<close>

record pluginState =
  jestObjGetterIdentifier :: "string option"
  hoistedVariables :: "nat set"
  programUnshifted :: "stmt list"

text \<open>The statement that the template \<^verbatim>\<open>createJestObjectGetter\<close> builds.\<close>

definition createJestObjectGetter :: "host \<Rightarrow> string \<Rightarrow> stmt" where
  "createJestObjectGetter h GETTER_NAME =
     FunctionDeclaration GETTER_NAME []
       (Frame [(JEST_GLOBALS_MODULE_JEST_EXPORT_NAME,
                Binding True (templateNode h) (Some False) True)] [])
       [VariableDeclaration ''const''
          [VariableDeclarator (templateNode h)
             (''{ '' @ JEST_GLOBALS_MODULE_JEST_EXPORT_NAME @ '' }'')
             (Some (CallExpression (Identifier ''require'')
                      [StringLiteral JEST_GLOBALS_MODULE_NAME]))],
        ExpressionStatement
          (AssignmentExpression GETTER_NAME
             (ArrowFunctionExpression [] (Frame [] [])
                (Identifier JEST_GLOBALS_MODULE_JEST_EXPORT_NAME))),
        ReturnStatement (Identifier JEST_GLOBALS_MODULE_JEST_EXPORT_NAME)]"

definition declareJestObjGetterIdentifier :: "host \<Rightarrow> pluginState \<Rightarrow> string \<times> pluginState" where
  "declareJestObjGetterIdentifier h st =
     (case jestObjGetterIdentifier st of
        Some ident \<Rightarrow> (ident, st)
      | None \<Rightarrow>
          (let ident = generateUidIdentifier h ''getJestObj''
           in (ident,
               st\<lparr>jestObjGetterIdentifier := Some ident,
                  programUnshifted := [createJestObjectGetter h ident] @ programUnshifted st\<rparr>)))"

text \<open>
  The visitor of expression statements. \<open>s\<close> is the scope of the statement; the detector
  tells which expression is the mocking object, and \<open>replaceJestObjExpr\<close> puts the call
  of the getter in its place.
\<close>

definition visitExpressionStatement ::
  "host \<Rightarrow> scope \<Rightarrow> expr \<Rightarrow> pluginState \<Rightarrow> error + expr \<times> pluginState" where
  "visitExpressionStatement h s e st =
     (case extractJestObjExprIfHoistable h s e (hoistedVariables st) of
        Inl err \<Rightarrow> Inl err
      | Inr (None, hv) \<Rightarrow> Inr (e, st\<lparr>hoistedVariables := hv\<rparr>)
      | Inr (Some jestObjExpr, hv) \<Rightarrow>
          (let (ident, st1) = declareJestObjGetterIdentifier h (st\<lparr>hoistedVariables := hv\<rparr>)
           in Inr (replaceJestObjExpr h s (CallExpression (Identifier ident) []) e, st1)))"

text \<open>
  The visit of the program: the visitor runs on every expression statement, outermost
  first, and the walk goes on below the statement as the visitor left it. The scope of a
  path is the stack of the frames of the nodes around it.
\<close>

lemma visitExpressionStatement_weight:
  "visitExpressionStatement h s e st = Inr (e1, st1) \<Longrightarrow> weight_expr e1 \<le> weight_expr e"
  by (auto simp: visitExpressionStatement_def weight_replace split: sum.splits prod.splits option.splits)

function (sequential)
  visit_expr :: "host \<Rightarrow> scope \<Rightarrow> expr \<Rightarrow> pluginState \<Rightarrow> error + expr \<times> pluginState"
  and visit_exprs :: "host \<Rightarrow> scope \<Rightarrow> expr list \<Rightarrow> pluginState \<Rightarrow> error + expr list \<times> pluginState"
  and visit_stmt :: "host \<Rightarrow> scope \<Rightarrow> stmt \<Rightarrow> pluginState \<Rightarrow> error + stmt \<times> pluginState"
  and visit_stmts :: "host \<Rightarrow> scope \<Rightarrow> stmt list \<Rightarrow> pluginState \<Rightarrow> error + stmt list \<times> pluginState"
  and visit_declarators :: "host \<Rightarrow> scope \<Rightarrow> declarator list \<Rightarrow> pluginState \<Rightarrow> error + declarator list \<times> pluginState"
where
  "visit_expr h s (FunctionExpression ps fr body) st =
     (case visit_stmts h (fr # s) body st of
        Inl err \<Rightarrow> Inl err
      | Inr (body1, st1) \<Rightarrow> Inr (FunctionExpression ps fr body1, st1))"
| "visit_expr h s (ArrowFunctionExpression ps fr e) st =
     (case visit_expr h (fr # s) e st of
        Inl err \<Rightarrow> Inl err
      | Inr (e1, st1) \<Rightarrow> Inr (ArrowFunctionExpression ps fr e1, st1))"
| "visit_expr h s (CallExpression c args) st =
     (case visit_expr h s c st of
        Inl err \<Rightarrow> Inl err
      | Inr (c1, st1) \<Rightarrow>
          (case visit_exprs h s args st1 of
             Inl err \<Rightarrow> Inl err
           | Inr (args1, st2) \<Rightarrow> Inr (CallExpression c1 args1, st2)))"
| "visit_expr h s (MemberExpression obj p computed) st =
     (case visit_expr h s obj st of
        Inl err \<Rightarrow> Inl err
      | Inr (obj1, st1) \<Rightarrow> Inr (MemberExpression obj1 p computed, st1))"
| "visit_expr h s (AssignmentExpression n e) st =
     (case visit_expr h s e st of
        Inl err \<Rightarrow> Inl err
      | Inr (e1, st1) \<Rightarrow> Inr (AssignmentExpression n e1, st1))"
| "visit_expr h s (TSAsExpression e t) st =
     (case visit_expr h s e st of
        Inl err \<Rightarrow> Inl err
      | Inr (e1, st1) \<Rightarrow> Inr (TSAsExpression e1 t, st1))"
| "visit_expr h s (TypeCastExpression e t) st =
     (case visit_expr h s e st of
        Inl err \<Rightarrow> Inl err
      | Inr (e1, st1) \<Rightarrow> Inr (TypeCastExpression e1 t, st1))"
| "visit_expr h s e st = Inr (e, st)"
| "visit_exprs h s [] st = Inr ([], st)"
| "visit_exprs h s (e # es) st =
     (case visit_expr h s e st of
        Inl err \<Rightarrow> Inl err
      | Inr (e1, st1) \<Rightarrow>
          (case visit_exprs h s es st1 of
             Inl err \<Rightarrow> Inl err
           | Inr (es1, st2) \<Rightarrow> Inr (e1 # es1, st2)))"
| "visit_stmt h s (ExpressionStatement e) st =
     (case visitExpressionStatement h s e st of
        Inl err \<Rightarrow> Inl err
      | Inr (e1, st1) \<Rightarrow>
          (case visit_expr h s e1 st1 of
             Inl err \<Rightarrow> Inl err
           | Inr (e2, st2) \<Rightarrow> Inr (ExpressionStatement e2, st2)))"
| "visit_stmt h s (VariableDeclaration k ds) st =
     (case visit_declarators h s ds st of
        Inl err \<Rightarrow> Inl err
      | Inr (ds1, st1) \<Rightarrow> Inr (VariableDeclaration k ds1, st1))"
| "visit_stmt h s (BlockStatement fr body) st =
     (case visit_stmts h (fr # s) body st of
        Inl err \<Rightarrow> Inl err
      | Inr (body1, st1) \<Rightarrow> Inr (BlockStatement fr body1, st1))"
| "visit_stmt h s (IfStatement c fr body) st =
     (case visit_expr h s c st of
        Inl err \<Rightarrow> Inl err
      | Inr (c1, st1) \<Rightarrow>
          (case visit_stmts h (fr # s) body st1 of
             Inl err \<Rightarrow> Inl err
           | Inr (body1, st2) \<Rightarrow> Inr (IfStatement c1 fr body1, st2)))"
| "visit_stmt h s (FunctionDeclaration n ps fr body) st =
     (case visit_stmts h (fr # s) body st of
        Inl err \<Rightarrow> Inl err
      | Inr (body1, st1) \<Rightarrow> Inr (FunctionDeclaration n ps fr body1, st1))"
| "visit_stmt h s (ReturnStatement e) st =
     (case visit_expr h s e st of
        Inl err \<Rightarrow> Inl err
      | Inr (e1, st1) \<Rightarrow> Inr (ReturnStatement e1, st1))"
| "visit_stmt h s EmptyStatement st = Inr (EmptyStatement, st)"
| "visit_stmts h s [] st = Inr ([], st)"
| "visit_stmts h s (x # xs) st =
     (case visit_stmt h s x st of
        Inl err \<Rightarrow> Inl err
      | Inr (x1, st1) \<Rightarrow>
          (case visit_stmts h s xs st1 of
             Inl err \<Rightarrow> Inl err
           | Inr (xs1, st2) \<Rightarrow> Inr (x1 # xs1, st2)))"
| "visit_declarators h s [] st = Inr ([], st)"
| "visit_declarators h s (VariableDeclarator i n ini # ds) st =
     (case (case ini of
              None \<Rightarrow> Inr (None, st)
            | Some e \<Rightarrow>
                (case visit_expr h s e st of
                   Inl err \<Rightarrow> Inl err
                 | Inr (e1, st1) \<Rightarrow> Inr (Some e1, st1))) of
        Inl err \<Rightarrow> Inl err
      | Inr (ini1, st1) \<Rightarrow>
          (case visit_declarators h s ds st1 of
             Inl err \<Rightarrow> Inl err
           | Inr (ds1, st2) \<Rightarrow> Inr (VariableDeclarator i n ini1 # ds1, st2)))"
  by pat_completeness auto


termination
  apply (relation "inv_image (less_than <*lex*> less_than)
      (\<lambda>x. case x of
          Inl (Inl (h, s, e, st)) \<Rightarrow> (weight_expr e, size e)
        | Inl (Inr (h, s, es, st)) \<Rightarrow> (sum_list (map weight_expr es), size_list size es)
        | Inr (Inl (h, s, x, st)) \<Rightarrow> (weight_stmt x, size x)
        | Inr (Inr (Inl (h, s, xs, st))) \<Rightarrow>
            (sum_list (map weight_stmt xs), size_list size xs)
        | Inr (Inr (Inr (h, s, ds, st))) \<Rightarrow>
            (sum_list (map weight_declarator ds), size_list size ds))")
                      apply (auto dest: visitExpressionStatement_weight)
  done


text \<open>
  \<^verbatim>\<open>post\<close>: \<^verbatim>\<open>visitBlock(program)\<close>, then
  \<^verbatim>\<open>program.traverse({BlockStatement: visitBlock})\<close>. \<open>post_block\<close> runs
  \<^verbatim>\<open>visitBlock\<close> on the body of the block with path \<open>block\<close> and walks on below the
  body it has made. The walk carries the path of the node it is at: \<open>post_expr\<close> is
  given the path of the expression, \<open>post_stmts\<close> and \<open>post_stmt\<close> the path of the
  block around the statements, \<open>post_exprs\<close> and \<open>post_declarators\<close> the path of the
  node that holds the list.
\<close>

definition stmtPath :: "stmt \<Rightarrow> path \<Rightarrow> path" where
  "stmtPath x block = Link (Some (type_stmt x)) True # block"

function (sequential)
  post_block :: "string option \<Rightarrow> nat set \<Rightarrow> path \<Rightarrow> stmt list \<Rightarrow> error + stmt list"
  and post_expr :: "string option \<Rightarrow> nat set \<Rightarrow> path \<Rightarrow> expr \<Rightarrow> error + expr"
  and post_exprs :: "string option \<Rightarrow> nat set \<Rightarrow> path \<Rightarrow> expr list \<Rightarrow> error + expr list"
  and post_stmt :: "string option \<Rightarrow> nat set \<Rightarrow> path \<Rightarrow> stmt \<Rightarrow> error + stmt"
  and post_stmts :: "string option \<Rightarrow> nat set \<Rightarrow> path \<Rightarrow> stmt list \<Rightarrow> error + stmt list"
  and post_declarators ::
    "string option \<Rightarrow> nat set \<Rightarrow> path \<Rightarrow> declarator list \<Rightarrow> error + declarator list"
where
  "post_block g hv block body =
     (case visitBlock g hv block body of
        Inl err \<Rightarrow> Inl err
      | Inr body1 \<Rightarrow> post_stmts g hv block body1)"
| "post_expr g hv p (FunctionExpression ps fr body) =
     (case post_block g hv (blockPath False p) body of
        Inl err \<Rightarrow> Inl err
      | Inr body1 \<Rightarrow> Inr (FunctionExpression ps fr body1))"
| "post_expr g hv p (ArrowFunctionExpression ps fr e) =
     (case post_expr g hv (exprPath e False p) e of
        Inl err \<Rightarrow> Inl err
      | Inr e1 \<Rightarrow> Inr (ArrowFunctionExpression ps fr e1))"
| "post_expr g hv p (CallExpression c args) =
     (case post_expr g hv (exprPath c False p) c of
        Inl err \<Rightarrow> Inl err
      | Inr c1 \<Rightarrow>
          (case post_exprs g hv p args of
             Inl err \<Rightarrow> Inl err
           | Inr args1 \<Rightarrow> Inr (CallExpression c1 args1)))"
| "post_expr g hv p (MemberExpression obj pr computed) =
     (case post_expr g hv (exprPath obj False p) obj of
        Inl err \<Rightarrow> Inl err
      | Inr obj1 \<Rightarrow> Inr (MemberExpression obj1 pr computed))"
| "post_expr g hv p (AssignmentExpression n e) =
     (case post_expr g hv (exprPath e False p) e of
        Inl err \<Rightarrow> Inl err
      | Inr e1 \<Rightarrow> Inr (AssignmentExpression n e1))"
| "post_expr g hv p (TSAsExpression e t) =
     (case post_expr g hv (exprPath e False p) e of
        Inl err \<Rightarrow> Inl err
      | Inr e1 \<Rightarrow> Inr (TSAsExpression e1 t))"
| "post_expr g hv p (TypeCastExpression e t) =
     (case post_expr g hv (exprPath e False p) e of
        Inl err \<Rightarrow> Inl err
      | Inr e1 \<Rightarrow> Inr (TypeCastExpression e1 t))"
| "post_expr g hv p e = Inr e"
| "post_exprs g hv p [] = Inr []"
| "post_exprs g hv p (e # es) =
     (case post_expr g hv (exprPath e True p) e of
        Inl err \<Rightarrow> Inl err
      | Inr e1 \<Rightarrow>
          (case post_exprs g hv p es of
             Inl err \<Rightarrow> Inl err
           | Inr es1 \<Rightarrow> Inr (e1 # es1)))"
| "post_stmt g hv block (ExpressionStatement e) =
     (case post_expr g hv (exprPath e False (stmtPath (ExpressionStatement e) block)) e of
        Inl err \<Rightarrow> Inl err
      | Inr e1 \<Rightarrow> Inr (ExpressionStatement e1))"
| "post_stmt g hv block (VariableDeclaration k ds) =
     (case post_declarators g hv (stmtPath (VariableDeclaration k ds) block) ds of
        Inl err \<Rightarrow> Inl err
      | Inr ds1 \<Rightarrow> Inr (VariableDeclaration k ds1))"
| "post_stmt g hv block (BlockStatement fr body) =
     (case post_block g hv (blockPath True block) body of
        Inl err \<Rightarrow> Inl err
      | Inr body1 \<Rightarrow> Inr (BlockStatement fr body1))"
| "post_stmt g hv block (IfStatement c fr body) =
     (case post_expr g hv (exprPath c False (stmtPath (IfStatement c fr body) block)) c of
        Inl err \<Rightarrow> Inl err
      | Inr c1 \<Rightarrow>
          (case post_block g hv (blockPath False (stmtPath (IfStatement c fr body) block))
                  body of
             Inl err \<Rightarrow> Inl err
           | Inr body1 \<Rightarrow> Inr (IfStatement c1 fr body1)))"
| "post_stmt g hv block (FunctionDeclaration n ps fr body) =
     (case post_block g hv
             (blockPath False (stmtPath (FunctionDeclaration n ps fr body) block)) body of
        Inl err \<Rightarrow> Inl err
      | Inr body1 \<Rightarrow> Inr (FunctionDeclaration n ps fr body1))"
| "post_stmt g hv block (ReturnStatement e) =
     (case post_expr g hv (exprPath e False (stmtPath (ReturnStatement e) block)) e of
        Inl err \<Rightarrow> Inl err
      | Inr e1 \<Rightarrow> Inr (ReturnStatement e1))"
| "post_stmt g hv block EmptyStatement = Inr EmptyStatement"
| "post_stmts g hv block [] = Inr []"
| "post_stmts g hv block (x # xs) =
     (case post_stmt g hv block x of
        Inl err \<Rightarrow> Inl err
      | Inr x1 \<Rightarrow>
          (case post_stmts g hv block xs of
             Inl err \<Rightarrow> Inl err
           | Inr xs1 \<Rightarrow> Inr (x1 # xs1)))"
| "post_declarators g hv p [] = Inr []"
| "post_declarators g hv p (VariableDeclarator i n ini # ds) =
     (case (case ini of
              None \<Rightarrow> Inr None
            | Some e \<Rightarrow>
                (case post_expr g hv (exprPath e False (declaratorPath p)) e of
                   Inl err \<Rightarrow> Inl err
                 | Inr e1 \<Rightarrow> Inr (Some e1))) of
        Inl err \<Rightarrow> Inl err
      | Inr ini1 \<Rightarrow>
          (case post_declarators g hv p ds of
             Inl err \<Rightarrow> Inl err
           | Inr ds1 \<Rightarrow> Inr (VariableDeclarator i n ini1 # ds1)))"
  by pat_completeness auto

termination
  apply (relation "inv_image (less_than <*lex*> less_than <*lex*> less_than)
      (\<lambda>x. case x of
          Inl (Inl (g, hv, p, body)) \<Rightarrow> (sum_list (map weight_stmt body), Suc 0, 0)
        | Inl (Inr (Inl (g, hv, p, e))) \<Rightarrow> (weight_expr e, 0, size e)
        | Inl (Inr (Inr (g, hv, p, es))) \<Rightarrow> (sum_list (map weight_expr es), 0, size_list size es)
        | Inr (Inl (g, hv, p, x)) \<Rightarrow> (weight_stmt x, 0, size x)
        | Inr (Inr (Inl (g, hv, p, xs))) \<Rightarrow> (sum_list (map weight_stmt xs), 0, size_list size xs)
        | Inr (Inr (Inr (g, hv, p, ds))) \<Rightarrow>
            (sum_list (map weight_declarator ds), 0, size_list size ds))")
                      apply (auto dest: weight_visitBlock)
  done

text \<open>
  One run of the plugin on a program. \<open>visitProgram\<close> is \<^verbatim>\<open>pre\<close> and the visit: the
  state starts without a getter identifier, and the statements that
  \<^verbatim>\<open>program.unshiftContainer\<close> has put in are in front of the body when the visit is
  over. \<open>post\<close> is the pass after the visit. The result of \<open>transform\<close> is the new
  program and the weak set \<^verbatim>\<open>hoistedVariables\<close> of the module.
\<close>

datatype program = Program frame "stmt list"

definition initialState :: "nat set \<Rightarrow> pluginState" where
  "initialState hv0 =
     \<lparr>jestObjGetterIdentifier = None, hoistedVariables = hv0, programUnshifted = []\<rparr>"

definition visitProgram :: "host \<Rightarrow> program \<Rightarrow> nat set \<Rightarrow> error + program \<times> pluginState" where
  "visitProgram h prog hv0 =
     (case prog of
        Program fr body \<Rightarrow>
          (case visit_stmts h [fr] body (initialState hv0) of
             Inl err \<Rightarrow> Inl err
           | Inr (body1, st) \<Rightarrow> Inr (Program fr (programUnshifted st @ body1), st)))"

definition post :: "pluginState \<Rightarrow> program \<Rightarrow> error + program" where
  "post st prog =
     (case prog of
        Program fr body \<Rightarrow>
          (case post_block (jestObjGetterIdentifier st) (hoistedVariables st) programPath
                  body of
             Inl err \<Rightarrow> Inl err
           | Inr body1 \<Rightarrow> Inr (Program fr body1)))"

definition transform :: "host \<Rightarrow> program \<Rightarrow> nat set \<Rightarrow> error + program \<times> nat set" where
  "transform h prog hv0 =
     (case visitProgram h prog hv0 of
        Inl err \<Rightarrow> Inl err
      | Inr (prog1, st) \<Rightarrow>
          (case post st prog1 of
             Inl err \<Rightarrow> Inl err
           | Inr prog2 \<Rightarrow> Inr (prog2, hoistedVariables st)))"





section \<open>The pass after the visit, in the words of the specification\<close>

text \<open>
  Within each block the statements come in three groups: the hoisted variable
  declarations, then the hoisted getter calls, then everything else, each group in the
  order it had. \<open>spec_post\<close> does this to a block and to every block nested in it.
\<close>

fun spec_hoist_expr :: "string option \<Rightarrow> nat set \<Rightarrow> expr \<Rightarrow> expr"
  and spec_hoist_stmt :: "string option \<Rightarrow> nat set \<Rightarrow> stmt \<Rightarrow> stmt"
  and spec_hoist_declarator :: "string option \<Rightarrow> nat set \<Rightarrow> declarator \<Rightarrow> declarator" where
  "spec_hoist_expr g hv (Identifier n) = Identifier n"
| "spec_hoist_expr g hv (StringLiteral v) = StringLiteral v"
| "spec_hoist_expr g hv (NumericLiteral v) = NumericLiteral v"
| "spec_hoist_expr g hv (FunctionExpression ps fr body) =
     FunctionExpression ps fr (spec_visitBlock g hv (map (spec_hoist_stmt g hv) body))"
| "spec_hoist_expr g hv (ArrowFunctionExpression ps fr e) =
     ArrowFunctionExpression ps fr (spec_hoist_expr g hv e)"
| "spec_hoist_expr g hv (CallExpression c args) =
     CallExpression (spec_hoist_expr g hv c) (map (spec_hoist_expr g hv) args)"
| "spec_hoist_expr g hv (MemberExpression obj p computed) =
     MemberExpression (spec_hoist_expr g hv obj) p computed"
| "spec_hoist_expr g hv (AssignmentExpression n e) =
     AssignmentExpression n (spec_hoist_expr g hv e)"
| "spec_hoist_expr g hv (TSAsExpression e t) = TSAsExpression (spec_hoist_expr g hv e) t"
| "spec_hoist_expr g hv (TypeCastExpression e t) =
     TypeCastExpression (spec_hoist_expr g hv e) t"
| "spec_hoist_stmt g hv (ExpressionStatement e) = ExpressionStatement (spec_hoist_expr g hv e)"
| "spec_hoist_stmt g hv (VariableDeclaration k ds) =
     VariableDeclaration k (map (spec_hoist_declarator g hv) ds)"
| "spec_hoist_stmt g hv (BlockStatement fr body) =
     BlockStatement fr (spec_visitBlock g hv (map (spec_hoist_stmt g hv) body))"
| "spec_hoist_stmt g hv (IfStatement c fr body) =
     IfStatement (spec_hoist_expr g hv c) fr
       (spec_visitBlock g hv (map (spec_hoist_stmt g hv) body))"
| "spec_hoist_stmt g hv (FunctionDeclaration n ps fr body) =
     FunctionDeclaration n ps fr (spec_visitBlock g hv (map (spec_hoist_stmt g hv) body))"
| "spec_hoist_stmt g hv (ReturnStatement e) = ReturnStatement (spec_hoist_expr g hv e)"
| "spec_hoist_stmt g hv EmptyStatement = EmptyStatement"
| "spec_hoist_declarator g hv (VariableDeclarator i n ini) =
     VariableDeclarator i n (map_option (spec_hoist_expr g hv) ini)"

definition spec_post :: "string option \<Rightarrow> nat set \<Rightarrow> stmt list \<Rightarrow> stmt list" where
  "spec_post g hv body = spec_visitBlock g hv (map (spec_hoist_stmt g hv) body)"




text \<open>
  Example programs over a program scope that binds the constants \<open>x\<close> and \<open>y\<close>.
  \<open>orderProgram\<close> is \<^verbatim>\<open>A(); const x = 1; jest.mock('x', () => x); B(); jest.mock('y')\<close>,
  \<open>blockProgram\<close> is
  \<^verbatim>\<open>function f() { A(); jest.mock('x'); B(); jest.mock('y') }\<close>.
\<close>

definition chainFrame :: frame where
  "chainFrame =
     Frame [(''x'', Binding True 1 (Some True) True), (''y'', Binding True 2 (Some True) True)]
           [''jest'']"

definition constY :: stmt where
  "constY = VariableDeclaration ''const'' [VariableDeclarator 2 ''y'' (Some (NumericLiteral 2))]"





definition blockProgram :: program where
  "blockProgram =
     Program chainFrame
       [FunctionDeclaration ''f'' [] (Frame [] [])
          [otherCall ''A'', ExpressionStatement (jestCall ''mock'' [StringLiteral ''x'']),
           otherCall ''B'', ExpressionStatement (jestCall ''mock'' [StringLiteral ''y''])]]"

definition blockOnce :: program where
  "blockOnce =
     Program chainFrame
       [createJestObjectGetter hostNone ''_getJestObj'',
        FunctionDeclaration ''f'' [] (Frame [] [])
          [getterCall ''mock'' [StringLiteral ''x''], getterCall ''mock'' [StringLiteral ''y''],
           otherCall ''A'', otherCall ''B'']]"

text \<open>
  \<open>ifProgram\<close> is \<^verbatim>\<open>B(); if (c) { A(); jest.mock('x'); }\<close>.
\<close>

definition ifProgram :: program where
  "ifProgram =
     Program chainFrame
       [otherCall ''B'',
        IfStatement (Identifier ''c'') (Frame [] [])
          [otherCall ''A'', ExpressionStatement (jestCall ''mock'' [StringLiteral ''x''])]]"

definition ifOnce :: program where
  "ifOnce =
     Program chainFrame
       [createJestObjectGetter hostNone ''_getJestObj'',
        otherCall ''B'',
        IfStatement (Identifier ''c'') (Frame [] [])
          [getterCall ''mock'' [StringLiteral ''x''], otherCall ''A'']]"

section \<open>Properties of the validation rules and of the detector\<close>

lemma programFrame_sel [simp]:
  "bindings programFrame =
     [(''x'', Binding True 7 (Some True) True),
      (''z'', Binding True 8 (Some True) False),
      (''foo'', Binding True 9 (Some False) True),
      (''mockFoo'', Binding True 10 (Some True) True)]"
  "globals programFrame = [''jest'', ''require'']"
  by (simp_all add: programFrame_def)

lemma isJestObject_jest [simp]:
  "isJestObject hostNone [programFrame] (Identifier ''jest'')"
  by (simp add: isJestObject_def hostNone_def JEST_GLOBAL_NAME_def hasBinding_def)

lemma isJestObject_foo [simp]:
  "\<not> isJestObject hostNone [programFrame] (Identifier ''foo'')"
  by (simp add: isJestObject_def hostNone_def JEST_GLOBAL_NAME_def)

lemma scopeWalk_append:
  "scopeWalk name P (inner @ P) =
     (if list_ex (\<lambda>fr. map_of (bindings fr) name \<noteq> None) inner
      then Some (True, dropWhile (\<lambda>fr. map_of (bindings fr) name = None) inner @ P)
      else Some (False, P))"
proof (induction inner)
  case Nil
  show ?case by (cases P) auto
next
  case (Cons fr inner)
  have "fr # inner @ P \<noteq> P"
  proof
    assume "fr # inner @ P = P"
    then have "length (fr # inner @ P) = length P" by simp
    then show False by simp
  qed
  with Cons show ?case by auto
qed

lemma ids_tnode_scope: "(n, sc) \<in> set (ids_tnode s t) \<Longrightarrow> sc = s"
  by (induction t) (auto split: if_splits)

text \<open>Every collected identifier lies in a scope below the scope the walk started in.\<close>

lemma ids_scopes:
  "(n, sc) \<in> set (ids_expr s e) \<Longrightarrow> suffix s sc"
  "(n, sc) \<in> set (ids_stmt s st) \<Longrightarrow> suffix s sc"
  "(n, sc) \<in> set (ids_declarator s d) \<Longrightarrow> suffix s sc"
  by (induction s e and s st and s d arbitrary: n sc and n sc and n sc
      rule: ids_expr_ids_stmt_ids_declarator.induct)
     (fastforce dest: ids_tnode_scope suffix_ConsD split: option.splits if_splits)+

lemma checkIdentifier_own:
  assumes "suffix P sc"
  shows "checkIdentifier h P (n, sc) hv =
     (if own_accepted h P (n, sc)
      then Inr (if own_mustHoist h P (n, sc)
                then insert (bnode (the (ownBinding P n))) hv else hv)
      else Inl (ReferenceError n sc))"
proof -
  from assms obtain inner where sc: "sc = inner @ P" by (auto simp: suffix_def)
  show ?thesis
    unfolding sc
    by (auto simp: checkIdentifier_def scopeWalk_append Let_def own_accepted_def
        own_mustHoist_def spec_locallyBound_def spec_allowedByName_def own_pureConstant_def
        isPureConstant_def split: option.splits)
qed

lemma checkIdentifiers_own:
  assumes "\<forall>ident \<in> set ids. suffix P (snd ident)"
  shows "checkIdentifiers h P ids hv =
     (case find (\<lambda>ident. \<not> own_accepted h P ident) ids of
        None \<Rightarrow> Inr (hv \<union> own_marked h P ids)
      | Some ident \<Rightarrow> Inl (ReferenceError (fst ident) (snd ident)))"
  using assms
proof (induction ids arbitrary: hv)
  case Nil
  show ?case by (simp add: own_marked_def)
next
  case (Cons ident ids)
  obtain n sc where ident: "ident = (n, sc)" by (cases ident)
  from Cons.prems have suf: "suffix P sc" and rest: "\<forall>i \<in> set ids. suffix P (snd i)"
    by (auto simp: ident)
  show ?case
  proof (cases "own_accepted h P (n, sc)")
    case False
    then show ?thesis by (simp add: ident checkIdentifier_own[OF suf])
  next
    case True
    then show ?thesis
      by (simp add: ident checkIdentifier_own[OF suf] Cons.IH[OF rest] own_marked_def
          split: option.splits)
  qed
qed

text \<open>
  In the scope of the program, and wherever the scope of the call binds the name itself,
  resolving the name and looking it up in the scope of the call give the same binding.
\<close>

lemma spec_resolve_own:
  "length parentScope = 1 \<or> ownBinding parentScope name \<noteq> None \<Longrightarrow>
   spec_resolve parentScope name = ownBinding parentScope name"
  by (cases parentScope) (auto simp: ownBinding_def split: option.splits)

lemma spec_mock_program:
  "spec_mock h [fr] moduleFactory hv =
     (case find (\<lambda>ident. \<not> own_accepted h [fr] ident) (ids_expr [fr] moduleFactory) of
        None \<Rightarrow> Inr (True, hv \<union> own_marked h [fr] (ids_expr [fr] moduleFactory))
      | Some ident \<Rightarrow> Inl (ReferenceError (fst ident) (snd ident)))"
proof -
  have a: "spec_pureConstant [fr] n = own_pureConstant [fr] n" for n
    by (simp add: spec_pureConstant_def own_pureConstant_def ownBinding_def
        split: option.splits)
  have b: "spec_accepted h [fr] = own_accepted h [fr]"
    by (rule ext) (simp add: spec_accepted_def own_accepted_def a)
  have c: "spec_mustHoist h [fr] = own_mustHoist h [fr]"
    by (rule ext) (simp add: spec_mustHoist_def own_mustHoist_def a)
  have d: "spec_resolve [fr] n = ownBinding [fr] n" for n
    by (simp add: ownBinding_def split: option.splits)
  have e: "spec_marked h [fr] ids = own_marked h [fr] ids" for ids
    by (simp only: spec_marked_def own_marked_def c d)
  show ?thesis
    by (simp only: spec_mock_def b e)
qed

lemma checkIdentifiers_not_TypeError: "checkIdentifiers h P ids hv \<noteq> Inl (TypeError e)"
  by (induction ids arbitrary: hv)
     (auto simp: checkIdentifier_def Let_def
        split: sum.splits option.splits if_splits prod.splits)

lemma FUNCTIONS_mock_TypeError:
  "length args = 2 \<or> length args = 3 \<Longrightarrow>
   (FUNCTIONS_mock h s args hv = Inl (TypeError (args ! 1))) = (\<not> isFunction (args ! 1))"
  using checkIdentifiers_not_TypeError[of h s "ids_expr s (args ! 1)" hv "args ! 1"]
  by (auto simp: FUNCTIONS_mock_def Let_def split: sum.splits)

lemma ids_tnode_erase: "ids_tnode s (eraseTypes_tnode t) = ids_tnode s t"
  by (induction t) (auto intro: arg_cong[where f=concat])

lemma ids_erase:
  "ids_expr s (eraseTypes_expr e) = ids_expr s e"
  "ids_stmt s (eraseTypes_stmt st) = ids_stmt s st"
  "ids_declarator s (eraseTypes_declarator d) = ids_declarator s d"
  by (induction s e and s st and s d rule: ids_expr_ids_stmt_ids_declarator.induct)
     (auto simp: ids_tnode_erase comp_def intro!: arg_cong[where f=concat]
        split: option.splits)

lemma isFunction_erase: "isFunction (eraseTypes_expr e) = isFunction e"
  by (cases e) auto

text \<open>
  Claim C2. When no receiver along the chain of a call expression is a reference to the
  mocking object, the detector returns \<^verbatim>\<open>null\<close> without running any validation rule:
  no error is raised and \<^verbatim>\<open>hoistedVariables\<close> is as before, whatever the trailing
  method name and the arguments are; and the visitor leaves the expression and the state
  of the plugin untouched.
\<close>

theorem detector_null_without_jest_receiver:
  assumes "\<forall>obj \<in> set (receivers e). \<not> isJestObject h s obj"
  shows "extractJestObjExprIfHoistable h s e hv = Inr (None, hv) \<and>
         visitExpressionStatement h s e st = Inr (e, st)"
proof -
  have x: "extractJestObjExprIfHoistable h s e v = Inr (None, v)" for v
    using assms by (induction h s e v rule: extractJestObjExprIfHoistable.induct) auto
  then show ?thesis by (simp add: visitExpressionStatement_def)
qed

text \<open>The call \<^verbatim>\<open>foo.mock('m', 1)\<close> on a user-defined object \<open>foo\<close>.\<close>

theorem detector_null_without_jest_receiver_witness:
  "receivers (CallExpression (MemberExpression (Identifier ''foo'') ''mock'' False)
                [StringLiteral ''m'', NumericLiteral 1]) = [Identifier ''foo''] \<and>
   \<not> isJestObject hostNone [programFrame] (Identifier ''foo'') \<and>
   extractJestObjExprIfHoistable hostNone [programFrame]
     (CallExpression (MemberExpression (Identifier ''foo'') ''mock'' False)
        [StringLiteral ''m'', NumericLiteral 1]) {} = Inr (None, {}) \<and>
   visitExpressionStatement hostNone [programFrame]
     (CallExpression (MemberExpression (Identifier ''foo'') ''mock'' False)
        [StringLiteral ''m'', NumericLiteral 1]) (initialState {})
   = Inr (CallExpression (MemberExpression (Identifier ''foo'') ''mock'' False)
            [StringLiteral ''m'', NumericLiteral 1], initialState {})"
proof -
  have h: "\<forall>obj \<in> set (receivers (CallExpression
             (MemberExpression (Identifier ''foo'') ''mock'' False)
             [StringLiteral ''m'', NumericLiteral 1])).
      \<not> isJestObject hostNone [programFrame] obj"
    by simp
  show ?thesis
    using h detector_null_without_jest_receiver [OF h, of "{}" "initialState {}"] by simp
qed

text \<open>
  \<^verbatim>\<open>const x = 1; function f() { jest.mock('m', () => x) }\<close>. The name \<open>x\<close> is bound
  neither in the factory nor in \<open>f\<close>, it is not allowed by name, and it resolves to the
  declarator of a pure constant of the program: by the rule in the words of the
  specification the call is accepted and the declarator of \<open>x\<close> is marked.
  \<^verbatim>\<open>FUNCTIONS.mock\<close> looks for \<open>x\<close> in the \<^verbatim>\<open>bindings\<close> of the scope of \<open>f\<close>
  alone, finds nothing, and throws the reference error; so does the run on the program.
\<close>

theorem mock_factory_outer_constant_rejected:
  "\<not> spec_locallyBound [functionFrame, programFrame]
       (''x'', [Frame [] [], functionFrame, programFrame]) \<and>
   \<not> spec_allowedByName hostNone [functionFrame, programFrame] ''x'' \<and>
   spec_resolve [functionFrame, programFrame] ''x'' = Some (Binding True 7 (Some True) True) \<and>
   spec_mock hostNone [functionFrame, programFrame] (arrow (Identifier ''x'')) {}
     = Inr (True, {7}) \<and>
   FUNCTIONS_mock hostNone [functionFrame, programFrame]
     [StringLiteral ''m'', arrow (Identifier ''x'')] {}
     = Inl (ReferenceError ''x'' [Frame [] [], functionFrame, programFrame]) \<and>
   transform hostNone
     (Program programFrame
        [VariableDeclaration ''const'' [VariableDeclarator 7 ''x'' (Some (NumericLiteral 1))],
         FunctionDeclaration ''f'' [] functionFrame
           [ExpressionStatement
              (jestCall ''mock'' [StringLiteral ''m'', arrow (Identifier ''x'')])]]) {}
     = Inl (ReferenceError ''x'' [Frame [] [], functionFrame, programFrame])"
  by (simp add: spec_mock_def spec_accepted_def spec_marked_def spec_mustHoist_def
      spec_locallyBound_def spec_allowedByName_def spec_pureConstant_def isPureConstant_def
      functionFrame_def arrow_def jestCall_def hasGlobal_def test_mock_i_def test_cov_def
      FUNCTIONS_mock_def FUNCTIONS_def checkIdentifier_def Let_def ownBinding_def
      transform_def visitProgram_def visitExpressionStatement_def initialState_def
      ALLOWED_IDENTIFIERS_def hostNone_def isJestObject_def JEST_GLOBAL_NAME_def
      hasBinding_def)

text \<open>
  Claim C3. For a call of the factory form (two or three arguments, the second a
  function), \<^verbatim>\<open>FUNCTIONS.mock\<close> goes through the free identifiers of the factory in
  the order of the walk. It throws the reference error for the first identifier that is
  neither locally resolved, nor allowed by name, nor bound by the scope of the call
  itself to the declarator of a pure constant; when there is none it accepts, and the
  declarators it has added to \<^verbatim>\<open>hoistedVariables\<close> are those of the identifiers that
  are not locally resolved, not allowed by name, and bound by the scope of the call
  itself to the declarator of a pure constant. A constant of a scope around the scope of
  the call is not looked for.
\<close>

theorem mock_factory_free_identifiers:
  assumes "length args = 2 \<or> length args = 3" and "isFunction (args ! 1)"
  shows "FUNCTIONS_mock h parentScope args hv =
     (case find (\<lambda>ident. \<not> own_accepted h parentScope ident)
             (ids_expr parentScope (args ! 1)) of
        None \<Rightarrow> Inr (True, hv \<union> own_marked h parentScope (ids_expr parentScope (args ! 1)))
      | Some ident \<Rightarrow> Inl (ReferenceError (fst ident) (snd ident)))"
proof -
  have "\<forall>ident \<in> set (ids_expr parentScope (args ! 1)). suffix parentScope (snd ident)"
    using ids_scopes(1) by fastforce
  from checkIdentifiers_own[OF this] assms show ?thesis
    by (auto simp: FUNCTIONS_mock_def Let_def split: option.splits)
qed

text \<open>\<^verbatim>\<open>const x = 1; jest.mock('m', () => x)\<close>: accepted, and \<open>x\<close> is marked.\<close>

theorem mock_factory_free_identifiers_witness:
  "(length [StringLiteral ''m'', arrow (Identifier ''x'')] = 2 \<or>
    length [StringLiteral ''m'', arrow (Identifier ''x'')] = 3) \<and>
   isFunction ([StringLiteral ''m'', arrow (Identifier ''x'')] ! 1) \<and>
   FUNCTIONS_mock hostNone [programFrame] [StringLiteral ''m'', arrow (Identifier ''x'')] {}
     = Inr (True, {7})"
proof -
  have a: "length [StringLiteral ''m'', arrow (Identifier ''x'')] = 2 \<or>
           length [StringLiteral ''m'', arrow (Identifier ''x'')] = 3" by simp
  have b: "isFunction ([StringLiteral ''m'', arrow (Identifier ''x'')] ! 1)"
    by (simp add: arrow_def)
  show ?thesis
    using a b mock_factory_free_identifiers [OF a b, of hostNone "[programFrame]" "{}"]
    by (simp add: arrow_def own_accepted_def own_marked_def own_mustHoist_def
        spec_locallyBound_def spec_allowedByName_def own_pureConstant_def isPureConstant_def
        ownBinding_def hasGlobal_def test_mock_i_def test_cov_def)
qed

text \<open>\<^verbatim>\<open>let z = 1; z = 2; jest.mock('m', () => z)\<close> is rejected: \<open>z\<close> is reassigned.\<close>

lemma mock_factory_reassigned_rejected:
  "extractJestObjExprIfHoistable hostNone [programFrame]
     (jestCall ''mock'' [StringLiteral ''m'', arrow (Identifier ''z'')]) {}
   = Inl (ReferenceError ''z'' [Frame [] [], programFrame])"
  by (simp add: jestCall_def arrow_def FUNCTIONS_def FUNCTIONS_mock_def checkIdentifier_def
      Let_def ownBinding_def hasGlobal_def test_mock_i_def test_cov_def)

text \<open>
  Claim C4. The factory form of \<^verbatim>\<open>jest.mock\<close> never looks at its first argument:
  \<^verbatim>\<open>jest.mock(moduleName, () => 1)\<close>, whose first argument is an identifier and no
  literal, is reported hoistable, while the one-argument form \<^verbatim>\<open>jest.mock(moduleName)\<close>
  is not.
\<close>

theorem mock_factory_first_argument_unchecked:
  "\<not> isLiteral (Identifier ''moduleName'') \<and>
   extractJestObjExprIfHoistable hostNone [programFrame]
     (jestCall ''mock'' [Identifier ''moduleName'', arrow (NumericLiteral 1)]) {}
     = Inr (Some (Identifier ''jest''), {}) \<and>
   extractJestObjExprIfHoistable hostNone [programFrame]
     (jestCall ''mock'' [Identifier ''moduleName'']) {} = Inr (None, {})"
  by (simp add: jestCall_def arrow_def FUNCTIONS_def FUNCTIONS_mock_def)

text \<open>
  Claim C7. For a call of \<^verbatim>\<open>mock\<close> with two or three arguments whose receiver is the
  mocking object (directly, or through a hoistable call), the detector throws the type
  error anchored at the second argument if and only if the second argument is not a
  function.
\<close>

theorem mock_type_error_iff_not_function:
  assumes "isJestObject h s object \<or>
           (\<exists>r hv1. extractJestObjExprIfHoistable h s object hv = Inr (Some r, hv1))"
    and "length args = 2 \<or> length args = 3"
  shows "(extractJestObjExprIfHoistable h s
            (CallExpression (MemberExpression object ''mock'' False) args) hv
          = Inl (TypeError (args ! 1))) = (\<not> isFunction (args ! 1))"
proof -
  from assms(1) obtain r hv1 where
    r: "(if isJestObject h s object then Inr (Some object, hv)
         else extractJestObjExprIfHoistable h s object hv) = Inr (Some r, hv1)"
    by (cases "isJestObject h s object") auto
  have "extractJestObjExprIfHoistable h s
          (CallExpression (MemberExpression object ''mock'' False) args) hv =
        (case FUNCTIONS_mock h s args hv1 of
           Inl e \<Rightarrow> Inl e
         | Inr (ok, hv2) \<Rightarrow> Inr (if ok then Some r else None, hv2))"
    by (simp add: r FUNCTIONS_def)
  then show ?thesis
    using FUNCTIONS_mock_TypeError[OF assms(2), of h s hv1]
    by (auto split: sum.splits prod.splits)
qed

text \<open>\<^verbatim>\<open>jest.mock('m', 1)\<close>: the second argument is a number.\<close>

theorem mock_type_error_iff_not_function_witness:
  "(isJestObject hostNone [programFrame] (Identifier ''jest'') \<or>
      (\<exists>r hv1. extractJestObjExprIfHoistable hostNone [programFrame] (Identifier ''jest'') {}
                 = Inr (Some r, hv1))) \<and>
   (length [StringLiteral ''m'', NumericLiteral 1] = 2 \<or>
    length [StringLiteral ''m'', NumericLiteral 1] = 3) \<and>
   extractJestObjExprIfHoistable hostNone [programFrame]
      (CallExpression (MemberExpression (Identifier ''jest'') ''mock'' False)
         [StringLiteral ''m'', NumericLiteral 1]) {}
     = Inl (TypeError (NumericLiteral 1))"
proof -
  have a: "isJestObject hostNone [programFrame] (Identifier ''jest'') \<or>
      (\<exists>r hv1. extractJestObjExprIfHoistable hostNone [programFrame] (Identifier ''jest'') {}
                 = Inr (Some r, hv1))"
    by simp
  have b: "length [StringLiteral ''m'', NumericLiteral 1] = 2 \<or>
           length [StringLiteral ''m'', NumericLiteral 1] = 3"
    by simp
  show ?thesis
    using a b mock_type_error_iff_not_function [OF a b] by simp
qed

text \<open>
  Claim C8. A free identifier of a factory that no scope between its own and the scope
  of the call binds is accepted, and \<^verbatim>\<open>hoistedVariables\<close> stays as it is, when the
  scope of the call has a global of that name and the name is on the allow-list, or the
  name matches \<^verbatim>\<open>/^mock/i\<close>, or the name matches \<^verbatim>\<open>/^(?:__)?cov/\<close>.
\<close>

theorem allowed_identifier_accepted_unmarked:
  assumes "\<not> list_ex (\<lambda>fr. map_of (bindings fr) name \<noteq> None) inner"
    and "(hasGlobal parentScope name \<and> name \<in> ALLOWED_IDENTIFIERS h) \<or>
         test_mock_i name \<or> test_cov name"
  shows "checkIdentifier h parentScope (name, inner @ parentScope) hv = Inr hv"
  using assms by (auto simp: checkIdentifier_def scopeWalk_append Let_def)

text \<open>
  \<^verbatim>\<open>const mockFoo = 1; jest.mock('m', () => mockFoo)\<close>: \<open>mockFoo\<close> is a pure constant
  of the program scope, and yet it is not marked.
\<close>

theorem allowed_identifier_accepted_unmarked_witness:
  "\<not> list_ex (\<lambda>fr. map_of (bindings fr) ''mockFoo'' \<noteq> None) [Frame [] []] \<and>
   ((hasGlobal [programFrame] ''mockFoo'' \<and> ''mockFoo'' \<in> ALLOWED_IDENTIFIERS hostNone) \<or>
      test_mock_i ''mockFoo'' \<or> test_cov ''mockFoo'') \<and>
   spec_pureConstant [programFrame] ''mockFoo'' \<and>
   checkIdentifier hostNone [programFrame] (''mockFoo'', [Frame [] []] @ [programFrame]) {} = Inr {}"
proof -
  have a: "\<not> list_ex (\<lambda>fr. map_of (bindings fr) ''mockFoo'' \<noteq> None) [Frame [] []]"
    by simp
  have b: "(hasGlobal [programFrame] ''mockFoo'' \<and> ''mockFoo'' \<in> ALLOWED_IDENTIFIERS hostNone) \<or>
      test_mock_i ''mockFoo'' \<or> test_cov ''mockFoo''"
    by (simp add: test_mock_i_def)
  have c: "spec_pureConstant [programFrame] ''mockFoo''"
    by (simp add: spec_pureConstant_def isPureConstant_def)
  show ?thesis
    using a b c allowed_identifier_accepted_unmarked [OF a b, of "{}"] by simp
qed

lemma allowed_identifier_examples:
  "test_mock_i ''MOCKthing''" "test_cov ''cov_1abc''" "test_cov ''__coverage__''"
  "\<not> test_mock_i ''amock''" "\<not> test_cov ''_cov''" "\<not> test_cov ''Cov''"
  "hasGlobal [Frame [] [], programFrame] ''require'' \<and> ''require'' \<in> ALLOWED_IDENTIFIERS hostNone"
  by (simp_all add: test_mock_i_def test_cov_def hasGlobal_def ALLOWED_IDENTIFIERS_def)

text \<open>
  Claim C10. The walk that collects the free identifiers of a factory does not enter a
  node of type \<^verbatim>\<open>TypeAnnotation\<close>, \<^verbatim>\<open>TSTypeAnnotation\<close> or \<^verbatim>\<open>TSTypeReference\<close>:
  emptying all such nodes of the factory changes neither the verdict of
  \<^verbatim>\<open>FUNCTIONS.mock\<close>, nor the error it throws, nor the declarators it marks. So an
  identifier that occurs only below such nodes raises no error and marks nothing.
\<close>

theorem mock_ignores_type_annotations:
  "length args = 2 \<or> length args = 3 \<Longrightarrow> isFunction (args ! 1) \<Longrightarrow>
   FUNCTIONS_mock h parentScope args hv =
   FUNCTIONS_mock h parentScope (args[1 := eraseTypes_expr (args ! 1)]) hv"
  by (auto simp: FUNCTIONS_mock_def ids_erase isFunction_erase Let_def)

text \<open>
  \<^verbatim>\<open>jest.mock('m', () => (require as Foo))\<close> with \<open>Foo\<close> bound nowhere: accepted. The
  same name below a type query, a node the walk does enter, is rejected.
\<close>

theorem mock_ignores_type_annotations_witness:
  "(length [StringLiteral ''m'', arrow (TSAsExpression (Identifier ''require'')
       (TNode ''TSTypeReference'' [TIdentifier ''Foo'']))] = 2 \<or>
    length [StringLiteral ''m'', arrow (TSAsExpression (Identifier ''require'')
       (TNode ''TSTypeReference'' [TIdentifier ''Foo'']))] = 3) \<and>
   isFunction ([StringLiteral ''m'', arrow (TSAsExpression (Identifier ''require'')
       (TNode ''TSTypeReference'' [TIdentifier ''Foo'']))] ! 1) \<and>
   FUNCTIONS_mock hostNone [programFrame]
     [StringLiteral ''m'', arrow (TSAsExpression (Identifier ''require'')
       (TNode ''TSTypeReference'' [TIdentifier ''Foo'']))] {} = Inr (True, {}) \<and>
   FUNCTIONS_mock hostNone [programFrame]
     [StringLiteral ''m'', arrow (TSAsExpression (Identifier ''require'')
       (TNode ''TSTypeQuery'' [TIdentifier ''Foo'']))] {}
     = Inl (ReferenceError ''Foo'' [Frame [] [], programFrame])"
proof -
  let ?args = "[StringLiteral ''m'', arrow (TSAsExpression (Identifier ''require'')
       (TNode ''TSTypeReference'' [TIdentifier ''Foo'']))]"
  have a: "length ?args = 2 \<or> length ?args = 3" by simp
  have b: "isFunction (?args ! 1)" by (simp add: arrow_def)
  have c: "FUNCTIONS_mock hostNone [programFrame]
     [StringLiteral ''m'', arrow (TSAsExpression (Identifier ''require'')
       (TNode ''TSTypeQuery'' [TIdentifier ''Foo'']))] {}
     = Inl (ReferenceError ''Foo'' [Frame [] [], programFrame])"
    by (simp add: arrow_def FUNCTIONS_mock_def checkIdentifier_def Let_def ownBinding_def
        hasGlobal_def test_mock_i_def test_cov_def IDVisitor_blacklist_def
        ALLOWED_IDENTIFIERS_def)
  show ?thesis
    using a b c mock_ignores_type_annotations [OF a b, of hostNone "[programFrame]" "{}"]
    by (simp add: arrow_def FUNCTIONS_mock_def checkIdentifier_def Let_def ownBinding_def
        hasGlobal_def test_mock_i_def test_cov_def IDVisitor_blacklist_def
        ALLOWED_IDENTIFIERS_def)
qed

section \<open>Properties of the hoisting pass\<close>

lemma isBlockPath_blockPath [simp]: "isBlockPath (blockPath b p)"
  by (simp add: isBlockPath_def blockPath_def isBlock_def BLOCK_TYPES_def)


lemma spec_hoist_mapBlocks:
  "spec_hoist_expr g hv e = mapBlocks_expr (spec_post g hv) e"
  "spec_hoist_stmt g hv x = mapBlocks_stmt (spec_post g hv) x"
  "spec_hoist_declarator g hv d = mapBlocks_declarator (spec_post g hv) d"
  by (induction g hv e and g hv x and g hv d
      rule: spec_hoist_expr_spec_hoist_stmt_spec_hoist_declarator.induct)
     (auto simp: spec_post_def intro!: option.map_cong)

lemma isHoistedCall_mapBlocks [simp]:
  "isHoistedCall g hv (mapBlocks_stmt f s) = isHoistedCall g hv s"
  by (simp add: isHoistedCall_def)

lemma isKept_mapBlocks [simp]: "isKept g hv (mapBlocks_stmt f s) = isKept g hv s"
  by (simp add: isKept_def)

lemma spec_visitBlock_map:
  "map (mapBlocks_stmt f) (spec_visitBlock g hv xs) =
   spec_visitBlock g hv (map (mapBlocks_stmt f) xs)"
  by (simp add: spec_visitBlock_def filter_map comp_def)

lemma spec_visitBlock_hoist:
  "map (spec_hoist_stmt g hv) (spec_visitBlock g hv xs) = spec_post g hv xs"
proof -
  have "spec_hoist_stmt g hv = mapBlocks_stmt (spec_post g hv)"
    by (rule ext) (rule spec_hoist_mapBlocks)
  then show ?thesis by (simp add: spec_post_def spec_visitBlock_map)
qed

text \<open>Below the path of a block, \<^verbatim>\<open>post\<close> does what the specification says.\<close>

lemma post_spec:
  "post_block g hv block body = Inr body2 \<Longrightarrow> isBlockPath block \<Longrightarrow>
     body2 = spec_post g hv body"
  "post_expr g hv p e = Inr e2 \<Longrightarrow> e2 = spec_hoist_expr g hv e"
  "post_exprs g hv p es = Inr es2 \<Longrightarrow> es2 = map (spec_hoist_expr g hv) es"
  "post_stmt g hv block x = Inr x2 \<Longrightarrow> x2 = spec_hoist_stmt g hv x"
  "post_stmts g hv block xs = Inr xs2 \<Longrightarrow> xs2 = map (spec_hoist_stmt g hv) xs"
  "post_declarators g hv p ds = Inr ds2 \<Longrightarrow> ds2 = map (spec_hoist_declarator g hv) ds"
proof (induction g hv block body and g hv p e and g hv p es and g hv block x
    and g hv block xs and g hv p ds
    arbitrary: body2 and e2 and es2 and x2 and xs2 and ds2
    rule: post_block_post_expr_post_exprs_post_stmt_post_stmts_post_declarators.induct)
  case (1 g hv block body)
  from "1.prems"(1) obtain b1 where v: "visitBlock g hv block body = Inr b1"
    and p: "post_stmts g hv block b1 = Inr body2"
    by (auto split: sum.splits)
  from visitBlock_spec[OF "1.prems"(2) v] have b1: "b1 = spec_visitBlock g hv body" .
  from "1.IH"[OF v p] b1 show ?case by (simp add: spec_visitBlock_hoist)
qed (auto split: sum.splits option.splits simp: spec_post_def simp del: post_block.simps)











text \<open>
  The block of the claim inside a function,
  \<^verbatim>\<open>function f() { A(); jest.mock('x'); B(); jest.mock('y') }\<close>: the body becomes the two
  calls, then \<open>A()\<close> and \<open>B()\<close>.
\<close>

lemma transform_block_example: "transform hostNone blockProgram {} = Inr (blockOnce, {})"
  by code_simp

text \<open>
  A declaration of two declarators of which one is marked,
  \<^verbatim>\<open>const x = 1, y = 2; jest.mock('x', () => x)\<close>: the pass gives the builder the node of
  a declarator that it has removed, and the run ends there.
\<close>

lemma transform_two_declarators:
  "transform hostNone
     (Program chainFrame
        [VariableDeclaration ''const''
           [VariableDeclarator 1 ''x'' (Some (NumericLiteral 1)),
            VariableDeclarator 2 ''y'' (Some (NumericLiteral 2))],
         ExpressionStatement
           (jestCall ''mock'' [StringLiteral ''x'', arrow (Identifier ''x'')])]) {}
   = Inl NullDeclarator"
  by code_simp

lemma mapBlocks_erase:
  "mapBlocks_expr (\<lambda>b. []) (mapBlocks_expr f e) = mapBlocks_expr (\<lambda>b. []) e"
  "mapBlocks_stmt (\<lambda>b. []) (mapBlocks_stmt f x) = mapBlocks_stmt (\<lambda>b. []) x"
  "mapBlocks_declarator (\<lambda>b. []) (mapBlocks_declarator f d) = mapBlocks_declarator (\<lambda>b. []) d"
proof -
  show e: "mapBlocks_expr (\<lambda>b. []) (mapBlocks_expr f e) = mapBlocks_expr (\<lambda>b. []) e" for e
    by (induction e rule: mapBlocks_expr.induct[of _ f]) auto
  show d: "mapBlocks_declarator (\<lambda>b. []) (mapBlocks_declarator f d) = mapBlocks_declarator (\<lambda>b. []) d"
    for d by (cases d) (auto simp: e option.map_comp comp_def)
  show "mapBlocks_stmt (\<lambda>b. []) (mapBlocks_stmt f x) = mapBlocks_stmt (\<lambda>b. []) x"
    by (cases x) (auto simp: e d)
qed

text \<open>
  Claim C5. Hoisting stays within the block. The pass over a block returns the statements
  of that block, in another order: it takes none from a block around it and gives none
  to it. It makes the same moves whatever the blocks nested in its statements hold
  (\<open>f\<close> is any rewriting of their bodies), so what is inside a nested block stays inside
  the statement that holds it. And the passes over the nested blocks, which come after,
  leave the statements of the block where they are and, outside of the nested blocks, as
  they are.
\<close>

theorem hoisting_block_local:
  assumes "visitBlock g hv block body = Inr body1"
    and "post_block g hv block body = Inr body2"
  shows "mset body1 = mset body \<and>
         visitBlock g hv block (map (mapBlocks_stmt f) body) =
           Inr (map (mapBlocks_stmt f) body1) \<and>
         map (mapBlocks_stmt (\<lambda>b. [])) body2 = map (mapBlocks_stmt (\<lambda>b. [])) body1"
proof -
  from assms have p: "post_stmts g hv block body1 = Inr body2" by simp
  from post_spec(5)[OF p] have "body2 = map (mapBlocks_stmt (spec_post g hv)) body1"
    using spec_hoist_mapBlocks(2)[of g hv] by (simp cong: map_cong)
  then have c: "map (mapBlocks_stmt (\<lambda>b. [])) body2 = map (mapBlocks_stmt (\<lambda>b. [])) body1"
    by (simp add: mapBlocks_erase comp_def)
  from visitBlock_mset[OF assms(1)] visitBlock_mapBlocks[of g hv block f body] assms(1) c
  show ?thesis by simp
qed

text \<open>
  \<^verbatim>\<open>B(); if (c) { A(); jest.mock('x'); }\<close> after the visit: the pass over the program
  leaves the call inside the body of the \<open>if\<close>; the pass over that body moves it to the
  front of that body. So does the whole run.
\<close>

theorem hoisting_block_local_witness:
  "visitBlock (Some ''_getJestObj'') {} programPath
     [createJestObjectGetter hostNone ''_getJestObj'', otherCall ''B'',
      IfStatement (Identifier ''c'') (Frame [] [])
        [otherCall ''A'', getterCall ''mock'' [StringLiteral ''x'']]]
   = Inr [createJestObjectGetter hostNone ''_getJestObj'', otherCall ''B'',
          IfStatement (Identifier ''c'') (Frame [] [])
            [otherCall ''A'', getterCall ''mock'' [StringLiteral ''x'']]] \<and>
   post_block (Some ''_getJestObj'') {} programPath
     [createJestObjectGetter hostNone ''_getJestObj'', otherCall ''B'',
      IfStatement (Identifier ''c'') (Frame [] [])
        [otherCall ''A'', getterCall ''mock'' [StringLiteral ''x'']]]
   = Inr [createJestObjectGetter hostNone ''_getJestObj'', otherCall ''B'',
          IfStatement (Identifier ''c'') (Frame [] [])
            [getterCall ''mock'' [StringLiteral ''x''], otherCall ''A'']] \<and>
   visitBlock (Some ''_getJestObj'') {} programPath
     (map (mapBlocks_stmt (\<lambda>b. []))
        [createJestObjectGetter hostNone ''_getJestObj'', otherCall ''B'',
         IfStatement (Identifier ''c'') (Frame [] [])
           [otherCall ''A'', getterCall ''mock'' [StringLiteral ''x'']]])
   = Inr (map (mapBlocks_stmt (\<lambda>b. []))
        [createJestObjectGetter hostNone ''_getJestObj'', otherCall ''B'',
         IfStatement (Identifier ''c'') (Frame [] [])
           [otherCall ''A'', getterCall ''mock'' [StringLiteral ''x'']]]) \<and>
   transform hostNone ifProgram {} = Inr (ifOnce, {})"
proof -
  let ?body = "[createJestObjectGetter hostNone ''_getJestObj'', otherCall ''B'',
      IfStatement (Identifier ''c'') (Frame [] [])
        [otherCall ''A'', getterCall ''mock'' [StringLiteral ''x'']]]"
  have a: "visitBlock (Some ''_getJestObj'') {} programPath ?body = Inr ?body"
    by code_simp
  have b: "post_block (Some ''_getJestObj'') {} programPath ?body
     = Inr [createJestObjectGetter hostNone ''_getJestObj'', otherCall ''B'',
          IfStatement (Identifier ''c'') (Frame [] [])
            [getterCall ''mock'' [StringLiteral ''x''], otherCall ''A'']]"
    by code_simp
  have c: "transform hostNone ifProgram {} = Inr (ifOnce, {})" by code_simp
  from hoisting_block_local [OF a b, of "\<lambda>b. []"] a b c show ?thesis
    by simp
qed

text \<open>
  When a call of the getter is met below a statement that the pass has already removed,
  the search for the statement around the call goes past the block. In the program it
  ends at the program, which is an error of the host framework. In a nested block it
  finds the statement that holds the block, and the source would put that statement
  into the block it holds. Such a call cannot come from the visit, which puts one call
  of the getter into a statement, as long as the name of the getter is fresh.
\<close>

lemma visitBlock_removed_statement:
  "visitBlock (Some ''_getJestObj'') {1} programPath
     [VariableDeclaration ''const''
        [VariableDeclarator 1 ''x'' (Some (CallExpression (Identifier ''_getJestObj'') []))]]
   = Inl ProgramStatementParent"
  "visitBlock (Some ''_getJestObj'') {1}
     (blockPath False (stmtPath (FunctionDeclaration ''f'' [] (Frame [] []) []) programPath))
     [VariableDeclaration ''const''
        [VariableDeclarator 1 ''x'' (Some (CallExpression (Identifier ''_getJestObj'') []))]]
   = Inl AncestorMoved"
  by code_simp+

section \<open>Properties of the getter and of the whole run\<close>















end
